theory Spec2Isabelle
  imports Main "HOL-Library.Word"
begin

unbundle bit_operations_syntax

section \<open>Data model of the IOP program\<close>

text \<open>
  The program is the C cell of \<^verbatim>\<open>PYNQ_IR_Communication.ipynb\<close> that is loaded onto
  the MicroBlaze I/O processor. \<^verbatim>\<open>unsigned int\<close> is a 32-bit word whose arithmetic wraps.
\<close>

type_synonym u32 = "32 word"

text \<open>
  The buffers are caller-owned arrays in shared memory; the instance keeps only raw
  pointers into it. Memory is a store from addresses to words. Addresses count 32-bit
  words, so \<^verbatim>\<open>p[i]\<close> is the word at \<open>p + unat i\<close>; the program never
  learns the size of a buffer.
\<close>

type_synonym addr = nat

text \<open>
  \<^verbatim>\<open>typedef int wio\<close>: a handle is an index into the instance table. The gpio library
  is not part of the repository: a gpio handle is represented by the pin index it was
  opened for, the direction table records \<^verbatim>\<open>gpio_set_direction\<close>, and each
  \<^verbatim>\<open>gpio_write\<close> appends the pin and the written value to a log.
\<close>

type_synonym wio = nat
type_synonym gpio = u32

datatype gpio_dir = GPIO_OUT | GPIO_IN

definition gpio_open :: "u32 \<Rightarrow> gpio" where
  "gpio_open pin = pin"

definition WIO_INST_COUNT :: nat where
  "WIO_INST_COUNT = 8"

record wio_inst_type =
  tx_buffer :: addr
  tx_buffer_cur :: u32
  tx_buffer_len :: u32
  tx_target_time :: u32
  tx_await_wrap :: u32
  tx_pin :: gpio
  rx_buffer :: addr
  rx_buffer_cur :: u32
  rx_buffer_len :: u32
  rx_last_time :: u32
  rx_pin :: gpio
  main_loop_running :: u32

text \<open>
  The globals of the program: the instance table, the allocation counter, the shared
  timer, and around them the memory and the gpio pins. The timer driver is external; of
  the timer the state keeps how often the startup sequence (\<^verbatim>\<open>XTmrCtr_Initialize\<close>,
  \<^verbatim>\<open>XTmrCtr_SetLoadReg\<close>, \<^verbatim>\<open>XTmrCtr_SetControlStatusReg\<close>) has been executed.
  The counter value itself is an input of every loop iteration.
\<close>

record wio_state =
  wio_inst :: "wio_inst_type list"
  wio_inst_count :: u32
  xtimer_startups :: nat
  memory :: "addr \<Rightarrow> u32"
  gpio_direction :: "gpio \<Rightarrow> gpio_dir option"
  gpio_writes :: "(gpio \<times> u32) list"

definition zero_inst :: wio_inst_type where
  "zero_inst = \<lparr>tx_buffer = 0, tx_buffer_cur = 0, tx_buffer_len = 0, tx_target_time = 0,
     tx_await_wrap = 0, tx_pin = 0, rx_buffer = 0, rx_buffer_cur = 0, rx_buffer_len = 0,
     rx_last_time = 0, rx_pin = 0, main_loop_running = 0\<rparr>"

text \<open>Program start: static storage is zero-initialised; the memory content is arbitrary.\<close>

definition wio_init :: "(addr \<Rightarrow> u32) \<Rightarrow> wio_state" where
  "wio_init m = \<lparr>wio_inst = replicate WIO_INST_COUNT zero_inst, wio_inst_count = 0,
     xtimer_startups = 0, memory = m, gpio_direction = (\<lambda>_. None), gpio_writes = []\<rparr>"

section \<open>Operations\<close>

text \<open>
  \<^verbatim>\<open>wio_new\<close>. An index outside the table is undefined behaviour in C; the list
  update leaves the table alone there, and the theorems below are about counters below
  \<open>WIO_INST_COUNT\<close>, which is all the program ever produces.
\<close>

definition wio_new :: "u32 \<Rightarrow> addr \<Rightarrow> u32 \<Rightarrow> addr \<Rightarrow> u32 \<Rightarrow> wio_state \<Rightarrow> wio \<times> wio_state" where
  "wio_new tx_pin_idx tx_buf rx_pin_idx rx_buf rx_buf_len s =
     (let self = unat (wio_inst_count s);
          s1 = s\<lparr>wio_inst_count := (wio_inst_count s + 1) mod of_nat WIO_INST_COUNT\<rparr>;
          s2 = (if self = 0 then s1\<lparr>xtimer_startups := xtimer_startups s1 + 1\<rparr> else s1);
          s3 = s2\<lparr>wio_inst := (wio_inst s2)[self := (wio_inst s2 ! self)
                 \<lparr>tx_buffer := tx_buf,
                  rx_buffer := rx_buf,
                  tx_buffer_len := 0,
                  rx_buffer_len := rx_buf_len,
                  tx_buffer_cur := 0,
                  rx_buffer_cur := 0,
                  tx_pin := gpio_open tx_pin_idx,
                  rx_pin := gpio_open rx_pin_idx,
                  main_loop_running := 0\<rparr>]\<rparr>;
          s4 = s3\<lparr>gpio_direction := (gpio_direction s3)
                 (tx_pin (wio_inst s3 ! self) \<mapsto> GPIO_OUT)\<rparr>;
          s5 = s4\<lparr>gpio_direction := (gpio_direction s4)
                 (rx_pin (wio_inst s4 ! self) \<mapsto> GPIO_IN)\<rparr>
      in (self, s5))"

text \<open>
  The transmit part of one loop iteration, on the instance. It reads the memory and
  returns the gpio writes it made (none or one).
\<close>

definition handle_transmissions ::
  "(addr \<Rightarrow> u32) \<Rightarrow> u32 \<Rightarrow> wio_inst_type \<Rightarrow> wio_inst_type \<times> (gpio \<times> u32) list" where
  "handle_transmissions m current_time self =
     (if tx_buffer_cur self \<noteq> tx_buffer_len self then
        let self1 = (if tx_buffer_cur self = 0
                     then self\<lparr>tx_target_time := current_time, tx_await_wrap := 0\<rparr>
                     else self);
            self2 = (if current_time < tx_await_wrap self1
                     then self1\<lparr>tx_await_wrap := 0\<rparr> else self1)
        in if tx_await_wrap self2 = 0 \<and> tx_target_time self2 \<le> current_time then
             let w = (tx_pin self2, NOT (tx_buffer_cur self2) AND 1);
                 self3 = self2\<lparr>tx_await_wrap := tx_target_time self2\<rparr>;
                 self4 = self3\<lparr>tx_target_time := tx_target_time self3
                                   + m (tx_buffer self3 + unat (tx_buffer_cur self3)),
                               tx_buffer_cur := tx_buffer_cur self3 + 1\<rparr>;
                 self5 = (if tx_await_wrap self4 \<le> tx_target_time self4
                          then self4\<lparr>tx_await_wrap := 0\<rparr> else self4)
             in (self5, [w])
           else (self2, [])
      else (self, []))"

text \<open>
  The receive part. \<^verbatim>\<open>% rx_buffer_len\<close> with a zero length is undefined behaviour
  in C (\<open>mod\<close> by zero is the identity in HOL), so it is a fault of the model.
\<close>

datatype fault = Division_by_zero

definition edge_detected :: "u32 \<Rightarrow> wio_inst_type \<Rightarrow> bool" where
  "edge_detected current_rx self \<longleftrightarrow> (rx_buffer_cur self AND 1) XOR current_rx \<noteq> 0"

definition handle_reception ::
  "u32 \<Rightarrow> u32 \<Rightarrow> wio_inst_type \<times> (addr \<Rightarrow> u32) \<Rightarrow> fault + wio_inst_type \<times> (addr \<Rightarrow> u32)" where
  "handle_reception current_time current_rx sm =
     (case sm of (self, m) \<Rightarrow>
        if edge_detected current_rx self then
          if rx_buffer_len self = 0 then Inl Division_by_zero
          else Inr (self\<lparr>rx_buffer_cur := (rx_buffer_cur self + 1) mod rx_buffer_len self,
                         rx_last_time := current_time\<rparr>,
                    m(rx_buffer self + unat (rx_buffer_cur self)
                        := current_time - rx_last_time self))
        else Inr (self, m))"

text \<open>
  The body of the while loop of \<^verbatim>\<open>wio_enable\<close>, from the two samples to just before
  \<^verbatim>\<open>yield()\<close>: both parts see the same \<open>current_time\<close> and \<open>current_rx\<close>.
\<close>

definition main_loop_iter :: "wio \<Rightarrow> u32 \<Rightarrow> u32 \<Rightarrow> wio_state \<Rightarrow> fault + wio_state" where
  "main_loop_iter self_id current_time current_rx s =
     (case handle_transmissions (memory s) current_time (wio_inst s ! self_id) of
        (self1, ws) \<Rightarrow>
          (case handle_reception current_time current_rx (self1, memory s) of
             Inl f \<Rightarrow> Inl f
           | Inr (self2, m') \<Rightarrow>
               Inr (s\<lparr>wio_inst := (wio_inst s)[self_id := self2], memory := m',
                       gpio_writes := gpio_writes s @ ws\<rparr>)))"

text \<open>Consecutive iterations during whose yields nothing else runs.\<close>

fun main_loop_iters :: "wio \<Rightarrow> (u32 \<times> u32) list \<Rightarrow> wio_state \<Rightarrow> fault + wio_state" where
  "main_loop_iters self_id [] s = Inr s"
| "main_loop_iters self_id ((current_time, current_rx) # es) s =
     (case main_loop_iter self_id current_time current_rx s of
        Inl f \<Rightarrow> Inl f
      | Inr s' \<Rightarrow> main_loop_iters self_id es s')"

text \<open>
  \<^verbatim>\<open>wio_enable\<close>. The loop runs until the flag is cleared, possibly forever. Its
  environment is a list with one entry per iteration: the timer value, the level of the
  receive pin, and what the calls served during \<^verbatim>\<open>yield()\<close> do to the state. The
  result is \<open>None\<close> when the list ends while the loop is still running.
\<close>

fun main_loop ::
  "wio \<Rightarrow> (u32 \<times> u32 \<times> (wio_state \<Rightarrow> wio_state)) list \<Rightarrow> wio_state
     \<Rightarrow> (fault + wio_state) option" where
  "main_loop self_id [] s =
     (if main_loop_running (wio_inst s ! self_id) = 0 then Some (Inr s) else None)"
| "main_loop self_id ((current_time, current_rx, yield) # es) s =
     (if main_loop_running (wio_inst s ! self_id) = 0 then Some (Inr s)
      else case main_loop_iter self_id current_time current_rx s of
             Inl f \<Rightarrow> Some (Inl f)
           | Inr s' \<Rightarrow> main_loop self_id es (yield s'))"

definition set_running :: "wio \<Rightarrow> u32 \<Rightarrow> wio_state \<Rightarrow> wio_state" where
  "set_running self_id v s =
     s\<lparr>wio_inst := (wio_inst s)[self_id := (wio_inst s ! self_id)\<lparr>main_loop_running := v\<rparr>]\<rparr>"

definition wio_enable ::
  "wio \<Rightarrow> (u32 \<times> u32 \<times> (wio_state \<Rightarrow> wio_state)) list \<Rightarrow> wio_state
     \<Rightarrow> (fault + wio_state) option" where
  "wio_enable self_id env s =
     (if main_loop_running (wio_inst s ! self_id) \<noteq> 0 then Some (Inr s)
      else main_loop self_id env (set_running self_id 1 s))"

definition wio_disable :: "wio \<Rightarrow> wio_state \<Rightarrow> wio_state" where
  "wio_disable self_id s = set_running self_id 0 s"

definition wio_enabled :: "wio \<Rightarrow> wio_state \<Rightarrow> u32" where
  "wio_enabled self_id s = main_loop_running (wio_inst s ! self_id)"

definition wio_tx_start :: "wio \<Rightarrow> u32 \<Rightarrow> wio_state \<Rightarrow> wio_state" where
  "wio_tx_start self_id tx_len s =
     s\<lparr>wio_inst := (wio_inst s)[self_id := (wio_inst s ! self_id)
         \<lparr>tx_buffer_len := tx_len, tx_buffer_cur := 0\<rparr>]\<rparr>"

definition wio_tx_cursor :: "wio \<Rightarrow> wio_state \<Rightarrow> u32" where
  "wio_tx_cursor self_id s = tx_buffer_cur (wio_inst s ! self_id)"

definition wio_rx_cursor :: "wio \<Rightarrow> wio_state \<Rightarrow> u32" where
  "wio_rx_cursor self_id s = rx_buffer_cur (wio_inst s ! self_id)"

definition wio_rx_reset :: "wio \<Rightarrow> wio_state \<Rightarrow> wio_state" where
  "wio_rx_reset self_id s =
     s\<lparr>wio_inst := (wio_inst s)[self_id := (wio_inst s ! self_id)\<lparr>rx_buffer_cur := 0\<rparr>]\<rparr>"

text \<open>A sequence of constructor calls, each with its five arguments, and the handles returned.\<close>

type_synonym new_args = "u32 \<times> addr \<times> u32 \<times> addr \<times> u32"

definition wio_new_args :: "new_args \<Rightarrow> wio_state \<Rightarrow> wio \<times> wio_state" where
  "wio_new_args a s = (case a of (tp, tb, rp, rb, rl) \<Rightarrow> wio_new tp tb rp rb rl s)"

fun wio_new_calls :: "new_args list \<Rightarrow> wio_state \<Rightarrow> wio list \<times> wio_state" where
  "wio_new_calls [] s = ([], s)"
| "wio_new_calls (a # as) s =
     (case wio_new_args a s of (h, s') \<Rightarrow>
        (case wio_new_calls as s' of (hs, s'') \<Rightarrow> (h # hs, s'')))"

text \<open>A memory of zeros and two argument tuples, for stating concrete runs.\<close>

definition zero_memory :: "addr \<Rightarrow> u32" where
  "zero_memory a = 0"

definition args_a :: new_args where
  "args_a = (0, 0, 2, 64, 16)"

definition args_b :: new_args where
  "args_b = (1, 128, 3, 192, 32)"

definition eight_calls :: "new_args list" where
  "eight_calls = [args_a, args_a, args_a, args_a, args_a, args_a, args_a, args_a]"

text \<open>
  What sequences of constructor calls maintain: the counter is \<open>k\<close>, below
  \<open>WIO_INST_COUNT\<close>, and the table has its \<open>WIO_INST_COUNT\<close> slots.
\<close>

definition calls_inv :: "nat \<Rightarrow> wio_state \<Rightarrow> bool" where
  "calls_inv k s \<longleftrightarrow> k < WIO_INST_COUNT \<and> wio_inst_count s = of_nat k
      \<and> length (wio_inst s) = WIO_INST_COUNT"

text \<open>Reading the transmit deadline of an instance off a state.\<close>

definition wio_tx_target :: "wio \<Rightarrow> wio_state \<Rightarrow> u32" where
  "wio_tx_target self_id s = tx_target_time (wio_inst s ! self_id)"

text \<open>
  A run for the misuse of the interface: a transmit buffer of four words at addresses
  100 to 103, each holding 1, followed by memory that is not part of it, holding 77.
\<close>

definition misuse_memory :: "addr \<Rightarrow> u32" where
  "misuse_memory a = (if a < 104 then 1 else 77)"

definition misuse_state :: wio_state where
  "misuse_state = snd (wio_new 0 100 2 200 3 (wio_init misuse_memory))"

text \<open>
  A run that leaves timing fields behind in slot 0: eight constructions, then one loop
  iteration of instance 0 at time 1000 that sees the receive pin high.
\<close>

definition stale_state :: wio_state where
  "stale_state = (case main_loop_iter 0 1000 1 (snd (wio_new_calls eight_calls (wio_init zero_memory)))
                  of Inr s \<Rightarrow> s | Inl f \<Rightarrow> wio_init zero_memory)"

text \<open>
  The states the program can be in. Calls arrive in any order and for any handle of the
  table; the loop of an instance contributes its iterations one by one, with any timer
  value and pin level; \<^verbatim>\<open>wio_enable\<close> contributes its entry, which sets the flag of
  an instance that is not running; and whoever shares the memory may store into it at any
  time.
\<close>

inductive reachable :: "wio_state \<Rightarrow> bool" where
  start: "reachable (wio_init m)"
| new: "reachable s \<Longrightarrow> reachable (snd (wio_new tp tb rp rb rl s))"
| iter: "reachable s \<Longrightarrow> self_id < WIO_INST_COUNT \<Longrightarrow>
         main_loop_iter self_id t current_rx s = Inr s' \<Longrightarrow> reachable s'"
| enable: "reachable s \<Longrightarrow> self_id < WIO_INST_COUNT \<Longrightarrow>
         main_loop_running (wio_inst s ! self_id) = 0 \<Longrightarrow> reachable (set_running self_id 1 s)"
| disable: "reachable s \<Longrightarrow> self_id < WIO_INST_COUNT \<Longrightarrow> reachable (wio_disable self_id s)"
| tx_start: "reachable s \<Longrightarrow> self_id < WIO_INST_COUNT \<Longrightarrow>
         reachable (wio_tx_start self_id tx_len s)"
| rx_reset: "reachable s \<Longrightarrow> self_id < WIO_INST_COUNT \<Longrightarrow> reachable (wio_rx_reset self_id s)"
| store: "reachable s \<Longrightarrow> reachable (s\<lparr>memory := m\<rparr>)"

text \<open>The bounds on the two cursors of an instance, and on the table as a whole.\<close>

definition cursors_ok :: "wio_inst_type \<Rightarrow> bool" where
  "cursors_ok i \<longleftrightarrow> tx_buffer_cur i \<le> tx_buffer_len i
     \<and> (rx_buffer_len i \<noteq> 0 \<longrightarrow> rx_buffer_cur i < rx_buffer_len i)"

definition table_ok :: "wio_state \<Rightarrow> bool" where
  "table_ok s \<longleftrightarrow> length (wio_inst s) = WIO_INST_COUNT
     \<and> unat (wio_inst_count s) < WIO_INST_COUNT
     \<and> (\<forall>i \<in> set (wio_inst s). cursors_ok i)"

text \<open>
  Time. The timer is a free-running 32-bit counter: at true time \<open>t\<close>, counted in
  ticks from a moment at which the counter was 0, it reads \<open>t\<close> modulo \<open>2 ^ 32\<close>.
  A list of samples gives, per loop iteration, the true time at which the iteration reads
  the timer and the level it reads from the receive pin.
\<close>

definition clock :: "nat \<Rightarrow> u32" where
  "clock t = of_nat t"

definition samples :: "(nat \<times> u32) list \<Rightarrow> (u32 \<times> u32) list" where
  "samples ps = map (\<lambda>p. (clock (fst p), snd p)) ps"

text \<open>
  Two conditions on the transmit fields of an instance between two transitions.
  \<open>tx_wait self r\<close>: an iteration that samples the timer \<open>r\<close> ticks before the
  deadline does not fire. \<open>tx_due self l\<close>: an iteration that samples it \<open>l\<close>
  ticks after the deadline fires.
\<close>

definition tx_wait :: "wio_inst_type \<Rightarrow> nat \<Rightarrow> bool" where
  "tx_wait self r \<longleftrightarrow> tx_buffer_cur self \<noteq> 0 \<and> tx_buffer_cur self \<noteq> tx_buffer_len self
     \<and> (if tx_await_wrap self = 0 then r \<le> unat (tx_target_time self)
         else tx_target_time self < tx_await_wrap self
              \<and> unat (tx_await_wrap self) + r \<le> unat (tx_target_time self) + 2 ^ 32)"

definition tx_due :: "wio_inst_type \<Rightarrow> nat \<Rightarrow> bool" where
  "tx_due self l \<longleftrightarrow> tx_buffer_cur self \<noteq> 0 \<and> tx_buffer_cur self \<noteq> tx_buffer_len self
     \<and> (if tx_await_wrap self = 0 then unat (tx_target_time self) + l < 2 ^ 32
         else unat (tx_target_time self) + l < unat (tx_await_wrap self))"

text \<open>What iterations that do not fire leave alone.\<close>

definition tx_quiet :: "wio \<Rightarrow> wio_state \<Rightarrow> wio_state \<Rightarrow> bool" where
  "tx_quiet h s s' \<longleftrightarrow> length (wio_inst s') = length (wio_inst s)
     \<and> gpio_writes s' = gpio_writes s
     \<and> tx_buffer_cur (wio_inst s' ! h) = tx_buffer_cur (wio_inst s ! h)
     \<and> tx_target_time (wio_inst s' ! h) = tx_target_time (wio_inst s ! h)
     \<and> (tx_await_wrap (wio_inst s' ! h) = 0
        \<or> tx_await_wrap (wio_inst s' ! h) = tx_await_wrap (wio_inst s ! h))
     \<and> tx_buffer_len (wio_inst s' ! h) = tx_buffer_len (wio_inst s ! h)
     \<and> tx_buffer (wio_inst s' ! h) = tx_buffer (wio_inst s ! h)
     \<and> tx_pin (wio_inst s' ! h) = tx_pin (wio_inst s ! h)
     \<and> rx_buffer_len (wio_inst s' ! h) = rx_buffer_len (wio_inst s ! h)
     \<and> rx_buffer (wio_inst s' ! h) = rx_buffer (wio_inst s ! h)"

text \<open>
  Two runs for the transmit deadlines. In the first the transmit buffer is at address
  100 and holds 10, then \<open>2 ^ 32 - 60\<close>; in the second it is at address 110 and
  holds \<open>2 ^ 32 - 1\<close>. \<open>window_fired\<close> is the second run after its first
  iteration, which samples the timer at time 1. \<open>odd_samples n\<close> are \<open>n\<close>
  iterations two ticks apart, at the times 3, 5, 7 and so on, with the receive pin low.
\<close>

definition deadline_memory :: "addr \<Rightarrow> u32" where
  "deadline_memory a = (if a = 100 then 10 else if a = 101 then 4294967236
                        else if a = 110 then 4294967295 else 5)"

definition late_start :: wio_state where
  "late_start = wio_tx_start 0 4 (snd (wio_new 0 100 2 200 16 (wio_init deadline_memory)))"

definition window_start :: wio_state where
  "window_start = wio_tx_start 0 2 (snd (wio_new 0 110 2 200 16 (wio_init deadline_memory)))"

definition window_fired :: wio_state where
  "window_fired = (case main_loop_iter 0 (clock 1) 0 window_start of
                     Inr s \<Rightarrow> s | Inl f \<Rightarrow> window_start)"

definition odd_samples :: "nat \<Rightarrow> (nat \<times> u32) list" where
  "odd_samples n = map (\<lambda>k. (2 * k + 3, 0)) [0..<n]"

text \<open>
  The loop polled once per tick: \<open>ticks t n level\<close> are \<open>n\<close> iterations at the true
  times \<open>t\<close>, \<open>t + 1\<close>, and so on, each reading \<open>level\<close> at its time from the
  receive pin. \<open>fire_time m p k\<close> is the sum of the first \<open>k\<close> entries of the
  buffer at address \<open>p\<close> in memory \<open>m\<close>.
\<close>

definition ticks :: "nat \<Rightarrow> nat \<Rightarrow> (nat \<Rightarrow> u32) \<Rightarrow> (nat \<times> u32) list" where
  "ticks t n level = map (\<lambda>k. (t + k, level (t + k))) [0..<n]"

fun fire_time :: "(addr \<Rightarrow> u32) \<Rightarrow> addr \<Rightarrow> nat \<Rightarrow> nat" where
  "fire_time m p 0 = 0"
| "fire_time m p (Suc k) = fire_time m p k + unat (m (p + k))"

text \<open>
  What a transmission of length \<open>N\<close> started in \<open>s0\<close> keeps fixed: the table size,
  the buffers and pins of the instance, the transmit length, a receive cursor inside its
  buffer, and the words of the transmit buffer. \<open>buffers_apart\<close> says that the receive
  buffer shares no word with the first \<open>N\<close> words of the transmit buffer, so that
  recording an interval does not change an entry still to be transmitted.
\<close>

definition tx_frame :: "wio \<Rightarrow> wio_state \<Rightarrow> u32 \<Rightarrow> wio_state \<Rightarrow> bool" where
  "tx_frame h s0 N s \<longleftrightarrow> length (wio_inst s) = length (wio_inst s0)
     \<and> tx_buffer (wio_inst s ! h) = tx_buffer (wio_inst s0 ! h)
     \<and> tx_pin (wio_inst s ! h) = tx_pin (wio_inst s0 ! h)
     \<and> tx_buffer_len (wio_inst s ! h) = N
     \<and> rx_buffer (wio_inst s ! h) = rx_buffer (wio_inst s0 ! h)
     \<and> rx_buffer_len (wio_inst s ! h) = rx_buffer_len (wio_inst s0 ! h)
     \<and> rx_buffer_cur (wio_inst s ! h) < rx_buffer_len (wio_inst s ! h)
     \<and> (\<forall>k < unat N. memory s (tx_buffer (wio_inst s0 ! h) + k)
                        = memory s0 (tx_buffer (wio_inst s0 ! h) + k))"

definition buffers_apart :: "wio_inst_type \<Rightarrow> u32 \<Rightarrow> bool" where
  "buffers_apart i N \<longleftrightarrow>
     (\<forall>k < unat N. \<forall>j < unat (rx_buffer_len i). tx_buffer i + k \<noteq> rx_buffer i + j)"

text \<open>
  \<open>fired_on_time h s0 N t0 k s\<close>: in \<open>s\<close> the transitions 0 to \<open>k\<close> of the
  transmission started at true time \<open>t0\<close> have fired, each with its level written to
  the pin, and the deadline of the next one is \<open>t0\<close> plus the sum of the entries 0 to
  \<open>k\<close>. \<open>tx_between h s0 N c s\<close>: the cursor is \<open>c\<close>, at least 1, and a pending
  wrap guard lies above the deadline.
\<close>

definition fired_on_time :: "wio \<Rightarrow> wio_state \<Rightarrow> u32 \<Rightarrow> nat \<Rightarrow> nat \<Rightarrow> wio_state \<Rightarrow> bool" where
  "fired_on_time h s0 N t0 k s \<longleftrightarrow> tx_frame h s0 N s
     \<and> tx_buffer_cur (wio_inst s ! h) = of_nat (Suc k)
     \<and> tx_target_time (wio_inst s ! h)
         = clock (t0 + fire_time (memory s0) (tx_buffer (wio_inst s0 ! h)) (Suc k))
     \<and> tx_await_wrap (wio_inst s ! h)
         = (if clock (t0 + fire_time (memory s0) (tx_buffer (wio_inst s0 ! h)) k)
                 \<le> clock (t0 + fire_time (memory s0) (tx_buffer (wio_inst s0 ! h)) (Suc k))
            then 0 else clock (t0 + fire_time (memory s0) (tx_buffer (wio_inst s0 ! h)) k))
     \<and> gpio_writes s
         = gpio_writes s0 @ map (\<lambda>j. (tx_pin (wio_inst s0 ! h), NOT (of_nat j) AND 1)) [0..<Suc k]"

definition tx_between :: "wio \<Rightarrow> wio_state \<Rightarrow> u32 \<Rightarrow> nat \<Rightarrow> wio_state \<Rightarrow> bool" where
  "tx_between h s0 N c s \<longleftrightarrow> tx_frame h s0 N s
     \<and> tx_buffer_cur (wio_inst s ! h) = of_nat c \<and> 0 < c \<and> c \<le> unat N
     \<and> (tx_await_wrap (wio_inst s ! h) \<noteq> 0 \<longrightarrow>
          tx_target_time (wio_inst s ! h) < tx_await_wrap (wio_inst s ! h))"

text \<open>
  Two transmissions on the first instance, with the transmit buffer at address 100 and
  a receive buffer of 16 words at address 200, and a receive pin that stays low. In
  \<open>zero_base\<close> every word of memory is 0; in \<open>example_base\<close> the transmit buffer
  holds 1000, 2000, 1000, 2000.
\<close>

definition pin_low :: "nat \<Rightarrow> u32" where
  "pin_low t = 0"

definition zero_base :: wio_state where
  "zero_base = snd (wio_new 0 100 2 200 16 (wio_init zero_memory))"

definition example_memory :: "addr \<Rightarrow> u32" where
  "example_memory a = (if a = 100 \<or> a = 102 then 1000
                       else if a = 101 \<or> a = 103 then 2000 else 0)"

definition example_base :: wio_state where
  "example_base = snd (wio_new 0 100 2 200 16 (wio_init example_memory))"

text \<open>
  A loop that reads the timer every 64 ticks: \<open>coarse_samples n\<close> are \<open>n\<close>
  iterations at the true times \<open>2 ^ 32 - 944\<close>, \<open>2 ^ 32 - 880\<close>, and so on, with the
  receive pin low. They follow an iteration at \<open>2 ^ 32 - 1008\<close>.
\<close>

definition coarse_samples :: "nat \<Rightarrow> (nat \<times> u32) list" where
  "coarse_samples n = map (\<lambda>k. (4294966352 + 64 * k, 0)) [0..<n]"

section \<open>Receive cursor reset\<close>

text \<open>
  C8. \<^verbatim>\<open>wio_rx_reset\<close> is idempotent, leaves the receive cursor of its instance at 0,
  and writes nothing to memory: the buffer keeps its old entries.
\<close>

theorem wio_rx_reset_idempotent_lazy:
  "wio_rx_reset self_id (wio_rx_reset self_id s) = wio_rx_reset self_id s
   \<and> memory (wio_rx_reset self_id s) = memory s
   \<and> (self_id < length (wio_inst s) \<longrightarrow>
        wio_rx_cursor self_id (wio_rx_reset self_id s) = 0
        \<and> wio_rx_cursor self_id (wio_rx_reset self_id (wio_rx_reset self_id s)) = 0)"
  by (cases "self_id < length (wio_inst s)") (simp_all add: wio_rx_reset_def wio_rx_cursor_def list_update_beyond)

section \<open>Construction\<close>

lemma count_step: "k < 8 \<Longrightarrow> ((of_nat k :: u32) + 1) mod 8 = of_nat (Suc k mod 8)"
proof -
  assume "k < 8"
  then consider "k = 0" | "k = 1" | "k = 2" | "k = 3" | "k = 4" | "k = 5" | "k = 6" | "k = 7"
    by linarith
  then show ?thesis by cases simp_all
qed

lemma unat_small: "k < 8 \<Longrightarrow> unat (of_nat k :: u32) = k"
  by (simp add: unat_of_nat)

lemma wio_new_step:
  assumes "calls_inv k s"
  shows "fst (wio_new tp tb rp rb rl s) = k"
    and "calls_inv (Suc k mod WIO_INST_COUNT) (snd (wio_new tp tb rp rb rl s))"
    and "xtimer_startups (snd (wio_new tp tb rp rb rl s))
           = xtimer_startups s + (if k = 0 then 1 else 0)"
  using assms
  by (simp_all add: calls_inv_def wio_new_def Let_def WIO_INST_COUNT_def count_step unat_small)

lemma wio_new_slot:
  assumes "calls_inv k s"
  shows "wio_inst (snd (wio_new tp tb rp rb rl s)) = (wio_inst s)[k := (wio_inst s ! k)
           \<lparr>tx_buffer := tb, rx_buffer := rb, tx_buffer_len := 0, rx_buffer_len := rl,
            tx_buffer_cur := 0, rx_buffer_cur := 0, tx_pin := gpio_open tp,
            rx_pin := gpio_open rp, main_loop_running := 0\<rparr>]"
  using assms by (simp add: calls_inv_def wio_new_def Let_def unat_small WIO_INST_COUNT_def)

lemma calls_inv_init: "calls_inv 0 (wio_init m)"
  by (simp add: calls_inv_def wio_init_def WIO_INST_COUNT_def)

lemma wio_new_calls_inv:
  "calls_inv k s \<Longrightarrow>
     fst (wio_new_calls as s) = map (\<lambda>i. (k + i) mod WIO_INST_COUNT) [0..<length as]
     \<and> calls_inv ((k + length as) mod WIO_INST_COUNT) (snd (wio_new_calls as s))
     \<and> xtimer_startups (snd (wio_new_calls as s)) + (k + 7) div 8
         = xtimer_startups s + (k + length as + 7) div 8"
proof (induction as arbitrary: k s)
  case Nil
  then show ?case by (simp add: calls_inv_def)
next
  case (Cons a as)
  obtain tp tb rp rb rl where a: "a = (tp, tb, rp, rb, rl)" by (cases a) auto
  let ?s' = "snd (wio_new tp tb rp rb rl s)"
  let ?k' = "Suc k mod WIO_INST_COUNT"
  have h: "fst (wio_new tp tb rp rb rl s) = k" and inv': "calls_inv ?k' ?s'"
    and st: "xtimer_startups ?s' = xtimer_startups s + (if k = 0 then 1 else 0)"
    using wio_new_step [OF Cons.prems] by blast+
  note IH = Cons.IH [OF inv']
  have k8: "k < 8" using Cons.prems by (simp add: calls_inv_def WIO_INST_COUNT_def)
  have unfold: "wio_new_calls (a # as) s
      = (k # fst (wio_new_calls as ?s'), snd (wio_new_calls as ?s'))"
    using h by (simp add: a wio_new_args_def case_prod_beta)
  have idx: "(?k' + i) mod WIO_INST_COUNT = (k + Suc i) mod WIO_INST_COUNT" for i
    by (simp add: mod_simps)
  have len: "(?k' + length as) mod WIO_INST_COUNT = (k + length (a # as)) mod WIO_INST_COUNT"
    using idx [of "length as"] by simp
  have arith: "(?k' + length as + 7) div 8 + (k + 7) div 8 + (if k = 0 then 1 else 0)
       = (k + length (a # as) + 7) div 8 + (?k' + 7) div 8"
  proof -
    from k8 consider "k = 0" | "k = 1" | "k = 2" | "k = 3" | "k = 4" | "k = 5" | "k = 6" | "k = 7"
      by linarith
    then show ?thesis by cases (simp_all add: WIO_INST_COUNT_def)
  qed
  show ?case
  proof (intro conjI)
    show "fst (wio_new_calls (a # as) s)
        = map (\<lambda>i. (k + i) mod WIO_INST_COUNT) [0..<length (a # as)]"
      using IH k8 unfolding unfold
      by (simp add: map_upt_Suc WIO_INST_COUNT_def mod_simps del: upt_Suc)
    show "calls_inv ((k + length (a # as)) mod WIO_INST_COUNT) (snd (wio_new_calls (a # as) s))"
      using IH unfolding unfold len [symmetric] by simp
    show "xtimer_startups (snd (wio_new_calls (a # as) s)) + (k + 7) div 8
         = xtimer_startups s + (k + length (a # as) + 7) div 8"
      using IH st arith unfolding unfold by simp
  qed
qed

lemma xtimer_startups_after_calls:
  "xtimer_startups (snd (wio_new_calls as (wio_init m))) = (length as + 7) div 8"
  using wio_new_calls_inv [OF calls_inv_init, of as m] by (simp add: wio_init_def)

lemma length_eight_calls: "length eight_calls = 8"
  by (simp add: eight_calls_def)


text \<open>
  C4. The timer startup runs whenever the allocation counter is 0, and the counter
  returns to 0 after \<open>WIO_INST_COUNT\<close> constructions: eight calls have started the
  timer once, the ninth call starts it a second time.
\<close>

theorem xtimer_started_again_by_ninth_wio_new:
  "xtimer_startups (snd (wio_new_calls eight_calls (wio_init zero_memory))) = 1
   \<and> xtimer_startups (snd (wio_new_calls (eight_calls @ [args_b]) (wio_init zero_memory))) = 2"
  by (simp add: xtimer_startups_after_calls length_eight_calls)

text \<open>
  C5, as the claim states it, fails: after eight constructions the next call returns
  handle 0 and builds the new instance in slot 0.
\<close>

theorem wio_new_exhausted_counterexample:
  "fst (wio_new_args args_b (snd (wio_new_calls eight_calls (wio_init zero_memory)))) = 0
   \<and> tx_buffer (wio_inst (snd (wio_new_args args_b
        (snd (wio_new_calls eight_calls (wio_init zero_memory)))))
        ! 0) = 128"
proof -
  have inv: "calls_inv 0 (snd (wio_new_calls eight_calls (wio_init zero_memory)))"
    using wio_new_calls_inv [OF calls_inv_init, of eight_calls zero_memory]
    by (simp add: length_eight_calls WIO_INST_COUNT_def)
  show ?thesis
    using wio_new_step(1) [OF inv] wio_new_slot [OF inv] inv
    by (simp add: wio_new_args_def args_b_def calls_inv_def WIO_INST_COUNT_def)
qed

text \<open>
  C5, amended. \<^verbatim>\<open>wio_new\<close> has no failure: called after \<open>WIO_INST_COUNT\<close>
  constructions it returns handle 0 again, the counter goes on to 1, and the table keeps
  its \<open>WIO_INST_COUNT\<close> slots.
\<close>

theorem wio_new_after_exhaustion:
  assumes "length as = WIO_INST_COUNT"
  shows "fst (wio_new_args a (snd (wio_new_calls as (wio_init m)))) = 0
     \<and> wio_inst_count (snd (wio_new_args a (snd (wio_new_calls as (wio_init m))))) = 1
     \<and> length (wio_inst (snd (wio_new_args a (snd (wio_new_calls as (wio_init m))))))
         = WIO_INST_COUNT"
proof -
  obtain tp tb rp rb rl where a: "a = (tp, tb, rp, rb, rl)" by (cases a) auto
  have inv: "calls_inv 0 (snd (wio_new_calls as (wio_init m)))"
    using wio_new_calls_inv [OF calls_inv_init, of as m] assms by simp
  show ?thesis
    using wio_new_step(1,2) [OF inv, of tp tb rp rb rl]
    by (simp add: a wio_new_args_def calls_inv_def WIO_INST_COUNT_def)
qed

theorem wio_new_after_exhaustion_witness:
  "length eight_calls = WIO_INST_COUNT
   \<and> fst (wio_new_args args_b (snd (wio_new_calls eight_calls (wio_init zero_memory)))) = 0
   \<and> wio_inst_count (snd (wio_new_args args_b
        (snd (wio_new_calls eight_calls (wio_init zero_memory))))) = 1"
proof -
  have len: "length eight_calls = WIO_INST_COUNT"
    by (simp add: eight_calls_def WIO_INST_COUNT_def)
  show ?thesis
    using len wio_new_after_exhaustion [OF len, of args_b zero_memory] by simp
qed



section \<open>One loop iteration\<close>

lemma handle_transmissions_frame:
  "rx_buffer (fst (handle_transmissions m t self)) = rx_buffer self"
  "rx_buffer_cur (fst (handle_transmissions m t self)) = rx_buffer_cur self"
  "rx_buffer_len (fst (handle_transmissions m t self)) = rx_buffer_len self"
  "rx_last_time (fst (handle_transmissions m t self)) = rx_last_time self"
  "rx_pin (fst (handle_transmissions m t self)) = rx_pin self"
  "tx_buffer (fst (handle_transmissions m t self)) = tx_buffer self"
  "tx_buffer_len (fst (handle_transmissions m t self)) = tx_buffer_len self"
  "tx_pin (fst (handle_transmissions m t self)) = tx_pin self"
  "main_loop_running (fst (handle_transmissions m t self)) = main_loop_running self"
  by (simp_all add: handle_transmissions_def Let_def)

lemma main_loop_iter_edge:
  assumes "self_id < length (wio_inst s)"
    and "(rx_buffer_cur (wio_inst s ! self_id) AND 1) XOR current_rx \<noteq> 0"
    and "rx_buffer_len (wio_inst s ! self_id) \<noteq> 0"
  shows "\<exists>s'. main_loop_iter self_id t current_rx s = Inr s'
        \<and> memory s' = (memory s)(rx_buffer (wio_inst s ! self_id)
                                   + unat (rx_buffer_cur (wio_inst s ! self_id))
                                 := t - rx_last_time (wio_inst s ! self_id))
        \<and> rx_buffer_cur (wio_inst s' ! self_id)
            = (rx_buffer_cur (wio_inst s ! self_id) + 1) mod rx_buffer_len (wio_inst s ! self_id)
        \<and> rx_last_time (wio_inst s' ! self_id) = t
        \<and> rx_buffer (wio_inst s' ! self_id) = rx_buffer (wio_inst s ! self_id)
        \<and> rx_buffer_len (wio_inst s' ! self_id) = rx_buffer_len (wio_inst s ! self_id)
        \<and> rx_pin (wio_inst s' ! self_id) = rx_pin (wio_inst s ! self_id)"
  using assms
  by (simp add: main_loop_iter_def handle_reception_def edge_detected_def case_prod_beta
      handle_transmissions_frame)

lemma main_loop_iter_no_edge:
  assumes "self_id < length (wio_inst s)"
    and "(rx_buffer_cur (wio_inst s ! self_id) AND 1) XOR current_rx = 0"
  shows "\<exists>s'. main_loop_iter self_id t current_rx s = Inr s'
        \<and> memory s' = memory s
        \<and> rx_buffer_cur (wio_inst s' ! self_id) = rx_buffer_cur (wio_inst s ! self_id)
        \<and> rx_last_time (wio_inst s' ! self_id) = rx_last_time (wio_inst s ! self_id)
        \<and> rx_buffer (wio_inst s' ! self_id) = rx_buffer (wio_inst s ! self_id)
        \<and> rx_buffer_len (wio_inst s' ! self_id) = rx_buffer_len (wio_inst s ! self_id)
        \<and> rx_pin (wio_inst s' ! self_id) = rx_pin (wio_inst s ! self_id)"
  using assms
  by (simp add: main_loop_iter_def handle_reception_def edge_detected_def case_prod_beta
      handle_transmissions_frame)

lemma main_loop_iter_fault:
  assumes "(rx_buffer_cur (wio_inst s ! self_id) AND 1) XOR current_rx \<noteq> 0"
    and "rx_buffer_len (wio_inst s ! self_id) = 0"
  shows "main_loop_iter self_id t current_rx s = Inl Division_by_zero"
  using assms
  by (simp add: main_loop_iter_def handle_reception_def edge_detected_def case_prod_beta
      handle_transmissions_frame)

text \<open>
  C7. One loop iteration of an instance of the table, seeing the time \<open>t\<close> and the pin
  level \<open>current_rx\<close>. If \<open>(rx_buffer_cur AND 1) XOR current_rx\<close> is non-zero (and
  the capacity is not 0, where the modulus is undefined), the iteration stores
  \<open>t - rx_last_time\<close> at \<open>rx_buffer[rx_buffer_cur]\<close> and nowhere else, advances the
  cursor to \<open>(rx_buffer_cur + 1) mod rx_buffer_len\<close> and sets \<open>rx_last_time\<close> to
  \<open>t\<close>. If it is zero, the memory and every receive field stay as they are.
\<close>

theorem receive_recording_step:
  assumes "self_id < length (wio_inst s)"
  shows "((rx_buffer_cur (wio_inst s ! self_id) AND 1) XOR current_rx \<noteq> 0
          \<and> rx_buffer_len (wio_inst s ! self_id) \<noteq> 0 \<longrightarrow>
          (\<exists>s'. main_loop_iter self_id t current_rx s = Inr s'
             \<and> memory s' = (memory s)(rx_buffer (wio_inst s ! self_id)
                                        + unat (rx_buffer_cur (wio_inst s ! self_id))
                                      := t - rx_last_time (wio_inst s ! self_id))
             \<and> rx_buffer_cur (wio_inst s' ! self_id)
                 = (rx_buffer_cur (wio_inst s ! self_id) + 1)
                     mod rx_buffer_len (wio_inst s ! self_id)
             \<and> rx_last_time (wio_inst s' ! self_id) = t
             \<and> rx_buffer (wio_inst s' ! self_id) = rx_buffer (wio_inst s ! self_id)
             \<and> rx_buffer_len (wio_inst s' ! self_id) = rx_buffer_len (wio_inst s ! self_id)
             \<and> rx_pin (wio_inst s' ! self_id) = rx_pin (wio_inst s ! self_id)))
     \<and> ((rx_buffer_cur (wio_inst s ! self_id) AND 1) XOR current_rx = 0 \<longrightarrow>
          (\<exists>s'. main_loop_iter self_id t current_rx s = Inr s'
             \<and> memory s' = memory s
             \<and> rx_buffer_cur (wio_inst s' ! self_id) = rx_buffer_cur (wio_inst s ! self_id)
             \<and> rx_last_time (wio_inst s' ! self_id) = rx_last_time (wio_inst s ! self_id)
             \<and> rx_buffer (wio_inst s' ! self_id) = rx_buffer (wio_inst s ! self_id)
             \<and> rx_buffer_len (wio_inst s' ! self_id) = rx_buffer_len (wio_inst s ! self_id)
             \<and> rx_pin (wio_inst s' ! self_id) = rx_pin (wio_inst s ! self_id)))
     \<and> ((rx_buffer_cur (wio_inst s ! self_id) AND 1) XOR current_rx \<noteq> 0
          \<and> rx_buffer_len (wio_inst s ! self_id) = 0 \<longrightarrow>
          main_loop_iter self_id t current_rx s = Inl Division_by_zero)"
  using main_loop_iter_edge [OF assms, of current_rx t]
    main_loop_iter_no_edge [OF assms, of current_rx t]
    main_loop_iter_fault [of s self_id current_rx t]
  by blast

lemma main_loop_iter_globals:
  assumes "main_loop_iter self_id t current_rx s = Inr s'"
  shows "wio_inst_count s' = wio_inst_count s" and "length (wio_inst s') = length (wio_inst s)"
    and "xtimer_startups s' = xtimer_startups s" and "gpio_direction s' = gpio_direction s"
    and "j \<noteq> self_id \<Longrightarrow> wio_inst s' ! j = wio_inst s ! j"
  using assms
  by (auto simp: main_loop_iter_def case_prod_beta split: sum.splits)

lemma wio_new_calls_keep_earlier:
  "calls_inv k s \<Longrightarrow> k + length as \<le> WIO_INST_COUNT \<Longrightarrow> j < k \<Longrightarrow>
     wio_inst (snd (wio_new_calls as s)) ! j = wio_inst s ! j"
proof (induction as arbitrary: k s)
  case Nil
  then show ?case by simp
next
  case (Cons a as)
  obtain tp tb rp rb rl where a: "a = (tp, tb, rp, rb, rl)" by (cases a) auto
  let ?s' = "snd (wio_new tp tb rp rb rl s)"
  have one: "wio_inst ?s' ! j = wio_inst s ! j"
    using wio_new_slot [OF Cons.prems(1), of tp tb rp rb rl] Cons.prems(3) by simp
  have rest: "wio_inst (snd (wio_new_calls as ?s')) ! j = wio_inst ?s' ! j"
  proof (cases as)
    case Nil
    then show ?thesis by simp
  next
    case (Cons b bs)
    then have "Suc k < 8" using Cons.prems(2) by (simp add: WIO_INST_COUNT_def)
    then have k: "Suc k mod WIO_INST_COUNT = Suc k" by (simp add: WIO_INST_COUNT_def)
    have inv': "calls_inv (Suc k) ?s'"
      using wio_new_step(2) [OF Cons.prems(1), of tp tb rp rb rl] k by simp
    show ?thesis
      using Cons.IH [OF inv'] Cons.prems by simp
  qed
  show ?case
    using one rest by (simp add: a wio_new_args_def case_prod_beta)
qed

lemma after_eight_calls:
  "calls_inv 0 (snd (wio_new_calls eight_calls (wio_init zero_memory)))"
  "wio_inst (snd (wio_new_calls eight_calls (wio_init zero_memory))) ! 0
     = zero_inst\<lparr>tx_buffer := 0, rx_buffer := 64, tx_buffer_len := 0, rx_buffer_len := 16,
         tx_buffer_cur := 0, rx_buffer_cur := 0, tx_pin := gpio_open 0, rx_pin := gpio_open 2,
         main_loop_running := 0\<rparr>"
  "memory (snd (wio_new_calls eight_calls (wio_init zero_memory))) = zero_memory"
proof -
  let ?s1 = "snd (wio_new 0 0 2 64 16 (wio_init zero_memory))"
  let ?rest = "[args_a, args_a, args_a, args_a, args_a, args_a, args_a]"
  have unfold: "snd (wio_new_calls eight_calls (wio_init zero_memory))
                  = snd (wio_new_calls ?rest ?s1)"
    by (simp add: eight_calls_def args_a_def wio_new_args_def case_prod_beta)
  have inv1: "calls_inv 1 ?s1"
    using wio_new_step(2) [OF calls_inv_init, of 0 0 2 64 16 zero_memory]
    by (simp add: WIO_INST_COUNT_def)
  show "calls_inv 0 (snd (wio_new_calls eight_calls (wio_init zero_memory)))"
    using wio_new_calls_inv [OF calls_inv_init, of eight_calls zero_memory]
    by (simp add: length_eight_calls WIO_INST_COUNT_def)
  have "wio_inst (snd (wio_new_calls ?rest ?s1)) ! 0 = wio_inst ?s1 ! 0"
    by (rule wio_new_calls_keep_earlier [OF inv1]) (simp_all add: WIO_INST_COUNT_def)
  also have "\<dots> = zero_inst\<lparr>tx_buffer := 0, rx_buffer := 64, tx_buffer_len := 0,
         rx_buffer_len := 16, tx_buffer_cur := 0, rx_buffer_cur := 0, tx_pin := gpio_open 0,
         rx_pin := gpio_open 2, main_loop_running := 0\<rparr>"
    using wio_new_slot [OF calls_inv_init, of 0 0 2 64 16 zero_memory]
    by (simp add: wio_init_def WIO_INST_COUNT_def)
  finally show "wio_inst (snd (wio_new_calls eight_calls (wio_init zero_memory))) ! 0
     = zero_inst\<lparr>tx_buffer := 0, rx_buffer := 64, tx_buffer_len := 0, rx_buffer_len := 16,
         tx_buffer_cur := 0, rx_buffer_cur := 0, tx_pin := gpio_open 0, rx_pin := gpio_open 2,
         main_loop_running := 0\<rparr>"
    unfolding unfold .
  have mem: "memory (snd (wio_new tp tb rp rb rl s)) = memory s" for tp tb rp rb rl s
    by (simp add: wio_new_def Let_def)
  have "memory (snd (wio_new_calls as s)) = memory s" for as s
    by (induction as arbitrary: s) (simp_all add: wio_new_args_def case_prod_beta mem)
  then show "memory (snd (wio_new_calls eight_calls (wio_init zero_memory))) = zero_memory"
    by (simp add: wio_init_def)
qed

lemma stale_state_facts:
  "wio_inst_count stale_state = 0"
  "length (wio_inst stale_state) = 8"
  "rx_buffer_cur (wio_inst stale_state ! 0) = 1"
  "rx_buffer_len (wio_inst stale_state ! 0) = 16"
  "rx_buffer (wio_inst stale_state ! 0) = 64"
  "rx_last_time (wio_inst stale_state ! 0) = 1000"
  "memory stale_state 64 = 1000"
  "memory stale_state 65 = 0"
  "main_loop_iter 0 1000 1 (snd (wio_new_calls eight_calls (wio_init zero_memory)))
     = Inr stale_state"
proof -
  let ?s8 = "snd (wio_new_calls eight_calls (wio_init zero_memory))"
  have len: "0 < length (wio_inst ?s8)" and cnt: "wio_inst_count ?s8 = 0"
    and len8: "length (wio_inst ?s8) = 8"
    using after_eight_calls(1) by (simp_all add: calls_inv_def WIO_INST_COUNT_def)
  obtain s' where s': "main_loop_iter 0 1000 1 ?s8 = Inr s'"
    and m: "memory s' = (memory ?s8)(rx_buffer (wio_inst ?s8 ! 0)
                                   + unat (rx_buffer_cur (wio_inst ?s8 ! 0))
                                 := 1000 - rx_last_time (wio_inst ?s8 ! 0))"
    and f: "rx_buffer_cur (wio_inst s' ! 0)
            = (rx_buffer_cur (wio_inst ?s8 ! 0) + 1) mod rx_buffer_len (wio_inst ?s8 ! 0)"
       "rx_last_time (wio_inst s' ! 0) = 1000"
       "rx_buffer (wio_inst s' ! 0) = rx_buffer (wio_inst ?s8 ! 0)"
       "rx_buffer_len (wio_inst s' ! 0) = rx_buffer_len (wio_inst ?s8 ! 0)"
    using main_loop_iter_edge [OF len, of 1 1000]
    by (auto simp: after_eight_calls(2) zero_inst_def)
  have eq: "stale_state = s'"
    by (simp add: stale_state_def s')
  show "wio_inst_count stale_state = 0" "length (wio_inst stale_state) = 8"
    using main_loop_iter_globals(1,2) [OF s'] cnt len8 by (simp_all add: eq)
  show "rx_buffer_cur (wio_inst stale_state ! 0) = 1"
    "rx_buffer_len (wio_inst stale_state ! 0) = 16"
    "rx_buffer (wio_inst stale_state ! 0) = 64"
    "rx_last_time (wio_inst stale_state ! 0) = 1000"
    using f by (simp_all add: eq after_eight_calls(2) zero_inst_def)
  show "memory stale_state 64 = 1000" "memory stale_state 65 = 0"
    using m by (simp_all add: eq after_eight_calls zero_inst_def zero_memory_def)
  show "main_loop_iter 0 1000 1 ?s8 = Inr stale_state"
    by (simp add: eq s')
qed

text \<open>
  The reset in \<open>stale_state\<close>, where the receive cursor of instance 0 is 1 and the
  first word of its buffer, at address 64, holds the recorded interval 1000: the cursor
  goes back to 0 and the word stays.
\<close>

theorem wio_rx_reset_idempotent_lazy_witness:
  "0 < length (wio_inst stale_state)
   \<and> wio_rx_cursor 0 stale_state = 1
   \<and> memory stale_state 64 = 1000
   \<and> wio_rx_reset 0 (wio_rx_reset 0 stale_state) = wio_rx_reset 0 stale_state
   \<and> wio_rx_cursor 0 (wio_rx_reset 0 stale_state) = 0
   \<and> wio_rx_cursor 0 (wio_rx_reset 0 (wio_rx_reset 0 stale_state)) = 0
   \<and> memory (wio_rx_reset 0 stale_state) 64 = 1000"
  using wio_rx_reset_idempotent_lazy [of 0 stale_state]
  by (simp add: stale_state_facts wio_rx_cursor_def)

theorem receive_recording_step_witness:
  "0 < length (wio_inst stale_state)
   \<and> (\<exists>s'. main_loop_iter 0 1800 0 stale_state = Inr s'
         \<and> memory s' 65 = 800 \<and> memory s' 64 = 1000
         \<and> rx_buffer_cur (wio_inst s' ! 0) = 2 \<and> rx_last_time (wio_inst s' ! 0) = 1800)
   \<and> (\<exists>s'. main_loop_iter 0 1800 1 stale_state = Inr s'
         \<and> memory s' 65 = 0 \<and> memory s' 64 = 1000
         \<and> rx_buffer_cur (wio_inst s' ! 0) = 1 \<and> rx_last_time (wio_inst s' ! 0) = 1000)"
proof -
  have len: "0 < length (wio_inst stale_state)"
    by (simp add: stale_state_facts)
  show ?thesis
    using len receive_recording_step [OF len, of 0 1800] receive_recording_step [OF len, of 1 1800]
    by (auto simp: stale_state_facts)
qed

section \<open>What construction leaves behind\<close>

text \<open>
  C10. \<^verbatim>\<open>wio_new\<close> stores the two buffer pointers, the two lengths, the two
  cursors, the two pins and the running flag of its slot, and \<open>tx_target_time\<close>,
  \<open>tx_await_wrap\<close> and \<open>rx_last_time\<close> keep the values the slot held before. The
  first iteration of the new instance that sees the receive pin high therefore records
  \<open>t - rx_last_time\<close> with the old \<open>rx_last_time\<close> of the slot.
\<close>

theorem wio_new_keeps_timing_fields:
  assumes "unat (wio_inst_count s) < length (wio_inst s)"
  shows "fst (wio_new tp tb rp rb rl s) = unat (wio_inst_count s)
     \<and> wio_inst (snd (wio_new tp tb rp rb rl s)) ! unat (wio_inst_count s)
         = (wio_inst s ! unat (wio_inst_count s))
             \<lparr>tx_buffer := tb, rx_buffer := rb, tx_buffer_len := 0, rx_buffer_len := rl,
              tx_buffer_cur := 0, rx_buffer_cur := 0, tx_pin := gpio_open tp,
              rx_pin := gpio_open rp, main_loop_running := 0\<rparr>
     \<and> tx_target_time (wio_inst (snd (wio_new tp tb rp rb rl s)) ! unat (wio_inst_count s))
         = tx_target_time (wio_inst s ! unat (wio_inst_count s))
     \<and> tx_await_wrap (wio_inst (snd (wio_new tp tb rp rb rl s)) ! unat (wio_inst_count s))
         = tx_await_wrap (wio_inst s ! unat (wio_inst_count s))
     \<and> rx_last_time (wio_inst (snd (wio_new tp tb rp rb rl s)) ! unat (wio_inst_count s))
         = rx_last_time (wio_inst s ! unat (wio_inst_count s))
     \<and> (current_rx \<noteq> 0 \<and> rl \<noteq> 0 \<longrightarrow>
          (\<exists>s'. main_loop_iter (unat (wio_inst_count s)) t current_rx
                   (snd (wio_new tp tb rp rb rl s)) = Inr s'
             \<and> memory s' rb = t - rx_last_time (wio_inst s ! unat (wio_inst_count s))))"
proof -
  let ?h = "unat (wio_inst_count s)"
  let ?s' = "snd (wio_new tp tb rp rb rl s)"
  have h: "fst (wio_new tp tb rp rb rl s) = ?h"
    by (simp add: wio_new_def Let_def)
  have table: "wio_inst ?s' = (wio_inst s)[?h := (wio_inst s ! ?h)
             \<lparr>tx_buffer := tb, rx_buffer := rb, tx_buffer_len := 0, rx_buffer_len := rl,
              tx_buffer_cur := 0, rx_buffer_cur := 0, tx_pin := gpio_open tp,
              rx_pin := gpio_open rp, main_loop_running := 0\<rparr>]"
    by (simp add: wio_new_def Let_def)
  have slot: "wio_inst ?s' ! ?h = (wio_inst s ! ?h)
             \<lparr>tx_buffer := tb, rx_buffer := rb, tx_buffer_len := 0, rx_buffer_len := rl,
              tx_buffer_cur := 0, rx_buffer_cur := 0, tx_pin := gpio_open tp,
              rx_pin := gpio_open rp, main_loop_running := 0\<rparr>"
    unfolding table using assms by (rule nth_list_update_eq)
  have len: "?h < length (wio_inst ?s')"
    unfolding table using assms by simp
  have first: "\<exists>s'. main_loop_iter ?h t current_rx ?s' = Inr s'
             \<and> memory s' rb = t - rx_last_time (wio_inst s ! ?h)"
    if "current_rx \<noteq> 0" "rl \<noteq> 0"
    using main_loop_iter_edge [OF len, of current_rx t] that by (auto simp: slot)
  show ?thesis
    using h slot first by simp
qed

theorem wio_new_keeps_timing_fields_witness:
  "unat (wio_inst_count stale_state) < length (wio_inst stale_state)
   \<and> fst (wio_new 1 128 3 192 32 stale_state) = 0
   \<and> rx_buffer (wio_inst (snd (wio_new 1 128 3 192 32 stale_state)) ! 0) = 192
   \<and> rx_buffer_cur (wio_inst (snd (wio_new 1 128 3 192 32 stale_state)) ! 0) = 0
   \<and> rx_last_time (wio_inst (snd (wio_new 1 128 3 192 32 stale_state)) ! 0) = 1000
   \<and> (\<exists>s'. main_loop_iter 0 1500 1 (snd (wio_new 1 128 3 192 32 stale_state)) = Inr s'
         \<and> memory s' 192 = 500)"
proof -
  have c: "unat (wio_inst_count stale_state) < length (wio_inst stale_state)"
    by (simp add: stale_state_facts)
  show ?thesis
    using c wio_new_keeps_timing_fields [OF c, of 1 128 3 192 32 1 1500]
    by (simp add: stale_state_facts)
qed

section \<open>Caller misuse\<close>

text \<open>
  C6, as the claim states it, fails. The transmit buffer of \<open>misuse_state\<close> has the
  four words 100 to 103, and the instance was constructed with the odd receive capacity
  3, which \<^verbatim>\<open>wio_new\<close> stored. \<^verbatim>\<open>wio_tx_start\<close> with length 5 is stored as
  well, and five iterations later the cursor is 5 and the deadline is
  \<open>10 + 1 + 1 + 1 + 1 + 77\<close>: the fifth transition has read the word at address 104,
  behind the buffer.
\<close>

theorem misuse_is_rejected_counterexample:
  "rx_buffer_len (wio_inst misuse_state ! 0) = 3
   \<and> tx_buffer_len (wio_inst (wio_tx_start 0 5 misuse_state) ! 0) = 5
   \<and> map_sum id (wio_tx_cursor 0)
        (main_loop_iters 0 [(10, 0), (11, 0), (12, 0), (13, 0), (14, 0)]
           (wio_tx_start 0 5 misuse_state)) = Inr 5
   \<and> map_sum id (wio_tx_target 0)
        (main_loop_iters 0 [(10, 0), (11, 0), (12, 0), (13, 0), (14, 0)]
           (wio_tx_start 0 5 misuse_state)) = Inr 91"
  by code_simp

text \<open>
  C6, amended. Nothing is validated: \<^verbatim>\<open>wio_tx_start\<close> stores any length and resets
  the cursor, \<^verbatim>\<open>wio_new\<close> stores any receive capacity, even or odd. Every transition
  at a cursor different from the stored length then adds the word
  \<open>tx_buffer[tx_buffer_cur]\<close> to the deadline, wherever the buffer ends.
\<close>

theorem misuse_is_accepted:
  "(self_id < length (wio_inst s) \<longrightarrow>
      tx_buffer_len (wio_inst (wio_tx_start self_id tx_len s) ! self_id) = tx_len
      \<and> tx_buffer_cur (wio_inst (wio_tx_start self_id tx_len s) ! self_id) = 0)
   \<and> (unat (wio_inst_count s0) < length (wio_inst s0) \<longrightarrow>
      rx_buffer_len (wio_inst (snd (wio_new tp tb rp rb rl s0)) ! fst (wio_new tp tb rp rb rl s0))
        = rl)
   \<and> (tx_buffer_cur (fst (handle_transmissions m t self)) \<noteq> tx_buffer_cur self \<longrightarrow>
      tx_buffer_cur self \<noteq> tx_buffer_len self
      \<and> tx_target_time (fst (handle_transmissions m t self))
          = (if tx_buffer_cur self = 0 then t else tx_target_time self)
            + m (tx_buffer self + unat (tx_buffer_cur self)))"
proof (intro conjI impI)
  assume "self_id < length (wio_inst s)"
  then show "tx_buffer_len (wio_inst (wio_tx_start self_id tx_len s) ! self_id) = tx_len"
    and "tx_buffer_cur (wio_inst (wio_tx_start self_id tx_len s) ! self_id) = 0"
    by (simp_all add: wio_tx_start_def)
next
  assume c: "unat (wio_inst_count s0) < length (wio_inst s0)"
  have table: "wio_inst (snd (wio_new tp tb rp rb rl s0))
        = (wio_inst s0)[unat (wio_inst_count s0) := (wio_inst s0 ! unat (wio_inst_count s0))
             \<lparr>tx_buffer := tb, rx_buffer := rb, tx_buffer_len := 0, rx_buffer_len := rl,
              tx_buffer_cur := 0, rx_buffer_cur := 0, tx_pin := gpio_open tp,
              rx_pin := gpio_open rp, main_loop_running := 0\<rparr>]"
    and h: "fst (wio_new tp tb rp rb rl s0) = unat (wio_inst_count s0)"
    by (simp_all add: wio_new_def Let_def)
  show "rx_buffer_len (wio_inst (snd (wio_new tp tb rp rb rl s0)) ! fst (wio_new tp tb rp rb rl s0))
        = rl"
    unfolding table h using c by simp
next
  assume "tx_buffer_cur (fst (handle_transmissions m t self)) \<noteq> tx_buffer_cur self"
  then show "tx_buffer_cur self \<noteq> tx_buffer_len self"
    and "tx_target_time (fst (handle_transmissions m t self))
          = (if tx_buffer_cur self = 0 then t else tx_target_time self)
            + m (tx_buffer self + unat (tx_buffer_cur self))"
    by (auto simp: handle_transmissions_def Let_def split: if_splits)
qed

theorem misuse_is_accepted_witness:
  "0 < length (wio_inst misuse_state)
   \<and> tx_buffer_len (wio_inst (wio_tx_start 0 5 misuse_state) ! 0) = 5
   \<and> unat (wio_inst_count (wio_init misuse_memory)) < length (wio_inst (wio_init misuse_memory))
   \<and> rx_buffer_len (wio_inst (snd (wio_new 0 100 2 200 3 (wio_init misuse_memory))) ! 0) = 3
   \<and> tx_buffer_cur (fst (handle_transmissions misuse_memory 10
        (wio_inst (wio_tx_start 0 5 misuse_state) ! 0))) = 1
   \<and> tx_target_time (fst (handle_transmissions misuse_memory 10
        (wio_inst (wio_tx_start 0 5 misuse_state) ! 0))) = 11"
proof -
  have ev: "0 < length (wio_inst misuse_state)
      \<and> unat (wio_inst_count (wio_init misuse_memory)) < length (wio_inst (wio_init misuse_memory))
      \<and> fst (wio_new 0 100 2 200 3 (wio_init misuse_memory)) = 0
      \<and> tx_buffer_cur (wio_inst (wio_tx_start 0 5 misuse_state) ! 0) = 0
      \<and> tx_buffer (wio_inst (wio_tx_start 0 5 misuse_state) ! 0) = 100
      \<and> tx_buffer_cur (fst (handle_transmissions misuse_memory 10
           (wio_inst (wio_tx_start 0 5 misuse_state) ! 0))) = 1"
    by code_simp
  show ?thesis
    using ev misuse_is_accepted [of 0 misuse_state 5 "wio_init misuse_memory" 0 100 2 200 3
        misuse_memory 10 "wio_inst (wio_tx_start 0 5 misuse_state) ! 0"]
    by (simp add: misuse_memory_def)
qed

section \<open>Cursor bounds\<close>

lemma cursor_step_le:
  fixes c l :: u32
  shows "c \<le> l \<Longrightarrow> c \<noteq> l \<Longrightarrow> c + 1 \<le> l"
  by (rule inc_le) simp

lemma cursors_ok_tx: "cursors_ok i \<Longrightarrow> cursors_ok (fst (handle_transmissions m t i))"
  using cursor_step_le [of "tx_buffer_cur i" "tx_buffer_len i"]
  by (auto simp: cursors_ok_def handle_transmissions_def Let_def)

lemma cursors_ok_rx:
  "cursors_ok i \<Longrightarrow> handle_reception t current_rx (i, m) = Inr (i', m') \<Longrightarrow> cursors_ok i'"
  by (auto simp: cursors_ok_def handle_reception_def word_mod_less_divisor word_greater_zero_iff
      split: if_splits)

lemma table_ok_update:
  "table_ok s \<Longrightarrow> cursors_ok i \<Longrightarrow> table_ok (s\<lparr>wio_inst := (wio_inst s)[k := i]\<rparr>)"
  using set_update_subset_insert [of "wio_inst s" k i]
  by (auto simp: table_ok_def)

lemma count_bound: "unat ((c + 1) mod 8 :: u32) < 8"
proof -
  have "(c + 1) mod 8 < 8" by (rule word_mod_less_divisor) simp
  then show ?thesis by (simp add: word_less_nat_alt)
qed

lemma reachable_table_ok: "reachable s \<Longrightarrow> table_ok s"
proof (induction rule: reachable.induct)
  case (start m)
  then show ?case
    by (simp add: table_ok_def wio_init_def cursors_ok_def zero_inst_def WIO_INST_COUNT_def)
next
  case (new s tp tb rp rb rl)
  have "cursors_ok ((wio_inst s ! unat (wio_inst_count s))
           \<lparr>tx_buffer := tb, rx_buffer := rb, tx_buffer_len := 0, rx_buffer_len := rl,
            tx_buffer_cur := 0, rx_buffer_cur := 0, tx_pin := gpio_open tp,
            rx_pin := gpio_open rp, main_loop_running := 0\<rparr>)"
    by (simp add: cursors_ok_def word_greater_zero_iff)
  from table_ok_update [OF new.IH this, of "unat (wio_inst_count s)"] show ?case
    using count_bound [of "wio_inst_count s"]
    by (simp add: wio_new_def Let_def table_ok_def WIO_INST_COUNT_def)
next
  case (iter s self_id t current_rx s')
  obtain i' m' where rx: "handle_reception t current_rx
        (fst (handle_transmissions (memory s) t (wio_inst s ! self_id)), memory s) = Inr (i', m')"
    and s': "s' = s\<lparr>wio_inst := (wio_inst s)[self_id := i'], memory := m',
          gpio_writes := gpio_writes s
             @ snd (handle_transmissions (memory s) t (wio_inst s ! self_id))\<rparr>"
    using iter.hyps(3) by (auto simp: main_loop_iter_def case_prod_beta split: sum.splits)
  have "wio_inst s ! self_id \<in> set (wio_inst s)"
    using iter.IH iter.hyps(2) by (simp add: table_ok_def)
  then have "cursors_ok (wio_inst s ! self_id)"
    using iter.IH by (simp add: table_ok_def)
  then have "cursors_ok i'"
    using cursors_ok_rx [OF cursors_ok_tx rx] by simp
  from table_ok_update [OF iter.IH this, of self_id] show ?case
    by (simp add: s' table_ok_def)
next
  case (enable s self_id)
  have "wio_inst s ! self_id \<in> set (wio_inst s)"
    using enable.IH enable.hyps(2) by (simp add: table_ok_def)
  then have "cursors_ok ((wio_inst s ! self_id)\<lparr>main_loop_running := 1\<rparr>)"
    using enable.IH by (simp add: table_ok_def cursors_ok_def)
  from table_ok_update [OF enable.IH this, of self_id] show ?case
    by (simp add: set_running_def)
next
  case (disable s self_id)
  have "wio_inst s ! self_id \<in> set (wio_inst s)"
    using disable.IH disable.hyps(2) by (simp add: table_ok_def)
  then have "cursors_ok ((wio_inst s ! self_id)\<lparr>main_loop_running := 0\<rparr>)"
    using disable.IH by (simp add: table_ok_def cursors_ok_def)
  from table_ok_update [OF disable.IH this, of self_id] show ?case
    by (simp add: wio_disable_def set_running_def)
next
  case (tx_start s self_id tx_len)
  have "wio_inst s ! self_id \<in> set (wio_inst s)"
    using tx_start.IH tx_start.hyps(2) by (simp add: table_ok_def)
  then have "cursors_ok ((wio_inst s ! self_id)\<lparr>tx_buffer_len := tx_len, tx_buffer_cur := 0\<rparr>)"
    using tx_start.IH by (simp add: table_ok_def cursors_ok_def)
  from table_ok_update [OF tx_start.IH this, of self_id] show ?case
    by (simp add: wio_tx_start_def)
next
  case (rx_reset s self_id)
  have "wio_inst s ! self_id \<in> set (wio_inst s)"
    using rx_reset.IH rx_reset.hyps(2) by (simp add: table_ok_def)
  then have "cursors_ok ((wio_inst s ! self_id)\<lparr>rx_buffer_cur := 0\<rparr>)"
    using rx_reset.IH by (simp add: table_ok_def cursors_ok_def word_greater_zero_iff)
  from table_ok_update [OF rx_reset.IH this, of self_id] show ?case
    by (simp add: wio_rx_reset_def)
next
  case (store s m)
  then show ?case by (simp add: table_ok_def)
qed

lemma rx_advance_by_one:
  fixes cur len :: u32
  assumes "cur < len"
  shows "unat ((cur + 1) mod len) = (unat cur + 1) mod unat len"
proof -
  have "unat cur + 1 < 2 ^ 32"
    using assms unsigned_less [of len, where 'a = nat] by (simp add: word_less_nat_alt)
  then have "unat (cur + 1) = unat cur + 1"
    by (simp add: unat_word_ariths)
  then show ?thesis by (simp add: unat_mod)
qed

lemma reachable_calls: "reachable s \<Longrightarrow> reachable (snd (wio_new_calls as s))"
proof (induction as arbitrary: s)
  case Nil
  then show ?case by simp
next
  case (Cons a as)
  obtain tp tb rp rb rl where a: "a = (tp, tb, rp, rb, rl)" by (cases a) auto
  have "reachable (snd (wio_new tp tb rp rb rl s))"
    using Cons.prems by (rule reachable.new)
  from Cons.IH [OF this] show ?case
    by (simp add: a wio_new_args_def case_prod_beta)
qed

text \<open>
  C3. In every reachable state and for every handle of the table, the transmit cursor
  is at most the transmit length, and the receive cursor of an instance with a capacity
  other than 0 is below the capacity. From such a state a loop iteration always
  completes; if it records an edge the receive cursor becomes the old one plus one,
  modulo the capacity, and otherwise it stays. Neither the parity of the capacity nor
  the size of the length given to \<^verbatim>\<open>wio_tx_start\<close> matters for this.
\<close>

theorem cursor_bounds_invariant:
  assumes "reachable s" and "self_id < WIO_INST_COUNT"
  shows "tx_buffer_cur (wio_inst s ! self_id) \<le> tx_buffer_len (wio_inst s ! self_id)
     \<and> (rx_buffer_len (wio_inst s ! self_id) \<noteq> 0 \<longrightarrow>
          rx_buffer_cur (wio_inst s ! self_id) < rx_buffer_len (wio_inst s ! self_id)
          \<and> (\<forall>t current_rx. \<exists>s'. main_loop_iter self_id t current_rx s = Inr s'
                \<and> unat (rx_buffer_cur (wio_inst s' ! self_id))
                    = (if (rx_buffer_cur (wio_inst s ! self_id) AND 1) XOR current_rx \<noteq> 0
                       then (unat (rx_buffer_cur (wio_inst s ! self_id)) + 1)
                              mod unat (rx_buffer_len (wio_inst s ! self_id))
                       else unat (rx_buffer_cur (wio_inst s ! self_id)))))"
proof -
  have ok: "table_ok s" using assms(1) by (rule reachable_table_ok)
  then have len: "self_id < length (wio_inst s)"
    using assms(2) by (simp add: table_ok_def)
  then have "wio_inst s ! self_id \<in> set (wio_inst s)" by simp
  then have c: "cursors_ok (wio_inst s ! self_id)"
    using ok by (simp add: table_ok_def)
  have step: "\<exists>s'. main_loop_iter self_id t current_rx s = Inr s'
                \<and> unat (rx_buffer_cur (wio_inst s' ! self_id))
                    = (if (rx_buffer_cur (wio_inst s ! self_id) AND 1) XOR current_rx \<noteq> 0
                       then (unat (rx_buffer_cur (wio_inst s ! self_id)) + 1)
                              mod unat (rx_buffer_len (wio_inst s ! self_id))
                       else unat (rx_buffer_cur (wio_inst s ! self_id)))"
    if nz: "rx_buffer_len (wio_inst s ! self_id) \<noteq> 0" for t current_rx
  proof (cases "(rx_buffer_cur (wio_inst s ! self_id) AND 1) XOR current_rx \<noteq> 0")
    case True
    have "rx_buffer_cur (wio_inst s ! self_id) < rx_buffer_len (wio_inst s ! self_id)"
      using c nz by (simp add: cursors_ok_def)
    from rx_advance_by_one [OF this] main_loop_iter_edge [OF len True nz, of t]
    show ?thesis using True by auto
  next
    case False
    then show ?thesis
      using main_loop_iter_no_edge [OF len, of current_rx t] by auto
  qed
  show ?thesis
    using c step by (simp add: cursors_ok_def)
qed

theorem cursor_bounds_invariant_witness:
  "reachable stale_state \<and> 0 < WIO_INST_COUNT
   \<and> tx_buffer_cur (wio_inst stale_state ! 0) \<le> tx_buffer_len (wio_inst stale_state ! 0)
   \<and> rx_buffer_len (wio_inst stale_state ! 0) = 16
   \<and> rx_buffer_cur (wio_inst stale_state ! 0) = 1
   \<and> rx_buffer_cur (wio_inst stale_state ! 0) < rx_buffer_len (wio_inst stale_state ! 0)
   \<and> (\<exists>s'. main_loop_iter 0 1800 0 stale_state = Inr s'
         \<and> unat (rx_buffer_cur (wio_inst s' ! 0)) = 2)"
proof -
  have r: "reachable stale_state"
    by (rule reachable.iter [OF reachable_calls [OF reachable.start] _ stale_state_facts(9)])
      (simp add: WIO_INST_COUNT_def)
  have h: "0 < WIO_INST_COUNT" by (simp add: WIO_INST_COUNT_def)
  from cursor_bounds_invariant [OF r h]
  have b: "tx_buffer_cur (wio_inst stale_state ! 0) \<le> tx_buffer_len (wio_inst stale_state ! 0)"
    and c: "rx_buffer_cur (wio_inst stale_state ! 0) < rx_buffer_len (wio_inst stale_state ! 0)"
    and st: "\<forall>t current_rx. \<exists>s'. main_loop_iter 0 t current_rx stale_state = Inr s'
                \<and> unat (rx_buffer_cur (wio_inst s' ! 0))
                    = (if (rx_buffer_cur (wio_inst stale_state ! 0) AND 1) XOR current_rx \<noteq> 0
                       then (unat (rx_buffer_cur (wio_inst stale_state ! 0)) + 1)
                              mod unat (rx_buffer_len (wio_inst stale_state ! 0))
                       else unat (rx_buffer_cur (wio_inst stale_state ! 0)))"
    by (simp_all add: stale_state_facts(4))
  from st [THEN spec, THEN spec, of 1800 0]
  obtain s' where i: "main_loop_iter 0 1800 0 stale_state = Inr s'"
    and e: "unat (rx_buffer_cur (wio_inst s' ! 0))
              = (if (rx_buffer_cur (wio_inst stale_state ! 0) AND 1) XOR 0 \<noteq> 0
                 then (unat (rx_buffer_cur (wio_inst stale_state ! 0)) + 1)
                        mod unat (rx_buffer_len (wio_inst stale_state ! 0))
                 else unat (rx_buffer_cur (wio_inst stale_state ! 0)))"
    by blast
  have "unat (rx_buffer_cur (wio_inst s' ! 0)) = 2"
    using e by (simp add: stale_state_facts)
  with i have "\<exists>s'. main_loop_iter 0 1800 0 stale_state = Inr s'
         \<and> unat (rx_buffer_cur (wio_inst s' ! 0)) = 2"
    by blast
  then show ?thesis
    using r h b c by (simp add: stale_state_facts)
qed

section \<open>Transmit deadlines\<close>

lemma unat_sub_of_nat_le:
  fixes T :: u32
  assumes "r \<le> unat T"
  shows "unat (T - of_nat r) = unat T - r"
proof -
  have "T - of_nat r = of_nat (unat T - r)"
    using assms by (simp add: of_nat_diff)
  moreover have "unat T - r < 2 ^ 32"
    using unsigned_less [of T, where 'a = nat] by simp
  ultimately show ?thesis
    by (simp add: unat_of_nat)
qed

lemma unat_sub_of_nat_gt:
  fixes T :: u32
  assumes "unat T < r" and "r \<le> 2 ^ 32"
  shows "unat (T - of_nat r) = unat T + 2 ^ 32 - r"
proof -
  have "(of_nat (unat T + 2 ^ 32 - r) :: u32) = of_nat (unat T + 2 ^ 32) - of_nat r"
    using assms by (simp add: of_nat_diff)
  also have "\<dots> = T - of_nat r"
    by simp
  finally have "T - of_nat r = of_nat (unat T + 2 ^ 32 - r)" by simp
  moreover have "unat T + 2 ^ 32 - r < 2 ^ 32"
    using assms by simp
  ultimately show ?thesis
    by (simp add: unat_of_nat)
qed

lemma unat_add_of_nat:
  fixes T :: u32
  assumes "unat T + l < 2 ^ 32"
  shows "unat (T + of_nat l) = unat T + l"
proof -
  have e: "T + of_nat l = of_nat (unat T + l)" by simp
  have "unat (of_nat (unat T + l) :: u32) = unat T + l"
    using assms by (simp only: unat_of_nat) simp
  then show ?thesis by (simp only: e)
qed

lemma wait_no_fire:
  assumes w: "tx_wait self r" and r: "0 < r"
  shows "snd (handle_transmissions m (tx_target_time self - of_nat r) self) = []
     \<and> tx_buffer_cur (fst (handle_transmissions m (tx_target_time self - of_nat r) self))
          = tx_buffer_cur self
     \<and> tx_target_time (fst (handle_transmissions m (tx_target_time self - of_nat r) self))
          = tx_target_time self
     \<and> (tx_await_wrap (fst (handle_transmissions m (tx_target_time self - of_nat r) self)) = 0
        \<or> tx_await_wrap (fst (handle_transmissions m (tx_target_time self - of_nat r) self))
            = tx_await_wrap self)
     \<and> (\<forall>r' \<le> r. tx_wait (fst (handle_transmissions m (tx_target_time self - of_nat r) self)) r')"
proof -
  let ?T = "tx_target_time self" and ?W = "tx_await_wrap self"
  let ?now = "?T - of_nat r"
  have c: "tx_buffer_cur self \<noteq> 0" "tx_buffer_cur self \<noteq> tx_buffer_len self"
    using w by (simp_all add: tx_wait_def)
  show ?thesis
  proof (cases "?W = 0")
    case True
    then have le: "r \<le> unat ?T" using w by (simp add: tx_wait_def)
    have "unat ?now = unat ?T - r" using le by (rule unat_sub_of_nat_le)
    then have lt: "?now < ?T" using r le by (simp add: word_less_nat_alt)
    show ?thesis
      using True lt le c by (simp add: handle_transmissions_def Let_def tx_wait_def not_le)
  next
    case False
    then have tw: "?T < ?W" and b: "unat ?W + r \<le> unat ?T + 2 ^ 32"
      using w by (simp_all add: tx_wait_def)
    show ?thesis
    proof (cases "r \<le> unat ?T")
      case True
      have u: "unat ?now = unat ?T - r" using True by (rule unat_sub_of_nat_le)
      then have lt: "?now < ?T" using r True by (simp add: word_less_nat_alt)
      then have ltw: "?now < ?W" using tw by simp
      show ?thesis
        using \<open>?W \<noteq> 0\<close> lt ltw True c
        by (simp add: handle_transmissions_def Let_def tx_wait_def not_le)
    next
      case False
      have r32: "r \<le> 2 ^ 32"
        using b tw by (simp add: word_less_nat_alt)
      have u: "unat ?now = unat ?T + 2 ^ 32 - r"
        using False r32 by (intro unat_sub_of_nat_gt) simp_all
      then have ge: "\<not> ?now < ?W" using b by (simp add: word_less_nat_alt)
      show ?thesis
        using \<open>?W \<noteq> 0\<close> ge c tw b
        by (simp add: handle_transmissions_def Let_def tx_wait_def)
    qed
  qed
qed

lemma due_fires:
  assumes d: "tx_due self l"
  shows "snd (handle_transmissions m (tx_target_time self + of_nat l) self)
           = [(tx_pin self, NOT (tx_buffer_cur self) AND 1)]
     \<and> tx_buffer_cur (fst (handle_transmissions m (tx_target_time self + of_nat l) self))
          = tx_buffer_cur self + 1
     \<and> tx_target_time (fst (handle_transmissions m (tx_target_time self + of_nat l) self))
          = tx_target_time self + m (tx_buffer self + unat (tx_buffer_cur self))
     \<and> tx_await_wrap (fst (handle_transmissions m (tx_target_time self + of_nat l) self))
          = (if tx_target_time self
                  \<le> tx_target_time self + m (tx_buffer self + unat (tx_buffer_cur self))
             then 0 else tx_target_time self)"
proof -
  let ?T = "tx_target_time self" and ?W = "tx_await_wrap self"
  let ?now = "?T + of_nat l"
  have c: "tx_buffer_cur self \<noteq> 0" "tx_buffer_cur self \<noteq> tx_buffer_len self"
    using d by (simp_all add: tx_due_def)
  have b: "unat ?T + l < 2 ^ 32"
    using d unsigned_less [of ?W, where 'a = nat] by (auto simp: tx_due_def split: if_splits)
  have u: "unat ?now = unat ?T + l" using b by (rule unat_add_of_nat)
  then have le: "?T \<le> ?now" by (simp add: word_le_nat_alt)
  show ?thesis
  proof (cases "?W = 0")
    case True
    then show ?thesis
      using le c by (simp add: handle_transmissions_def Let_def)
  next
    case False
    then have "unat ?T + l < unat ?W" using d by (simp add: tx_due_def)
    then have "?now < ?W" using u by (simp add: word_less_nat_alt)
    then show ?thesis
      using le c by (simp add: handle_transmissions_def Let_def)
  qed
qed

lemma first_fires:
  assumes "tx_buffer_cur self = 0" and "tx_buffer_len self \<noteq> 0"
  shows "snd (handle_transmissions m t self) = [(tx_pin self, 1)]
     \<and> tx_buffer_cur (fst (handle_transmissions m t self)) = 1
     \<and> tx_target_time (fst (handle_transmissions m t self)) = t + m (tx_buffer self)
     \<and> tx_await_wrap (fst (handle_transmissions m t self))
          = (if t \<le> t + m (tx_buffer self) then 0 else t)"
  using assms by (simp add: handle_transmissions_def Let_def)

lemma fired_facts:
  assumes "tx_buffer_cur (fst (handle_transmissions m t self)) \<noteq> tx_buffer_cur self"
  shows "tx_buffer_cur self \<noteq> tx_buffer_len self
     \<and> (if tx_buffer_cur self = 0 then t else tx_target_time self) \<le> t
     \<and> snd (handle_transmissions m t self) = [(tx_pin self, NOT (tx_buffer_cur self) AND 1)]
     \<and> tx_buffer_cur (fst (handle_transmissions m t self)) = tx_buffer_cur self + 1
     \<and> tx_target_time (fst (handle_transmissions m t self))
          = (if tx_buffer_cur self = 0 then t else tx_target_time self)
            + m (tx_buffer self + unat (tx_buffer_cur self))
     \<and> tx_await_wrap (fst (handle_transmissions m t self))
          = (if (if tx_buffer_cur self = 0 then t else tx_target_time self)
                  \<le> (if tx_buffer_cur self = 0 then t else tx_target_time self)
                     + m (tx_buffer self + unat (tx_buffer_cur self))
             then 0 else (if tx_buffer_cur self = 0 then t else tx_target_time self))"
  using assms by (auto simp: handle_transmissions_def Let_def split: if_splits)

lemma post_fire_wait:
  fixes T0 d :: u32
  assumes "tx_buffer_cur self \<noteq> 0" and "tx_buffer_cur self \<noteq> tx_buffer_len self"
    and T: "tx_target_time self = T0 + d"
    and W: "tx_await_wrap self = (if T0 \<le> T0 + d then 0 else T0)"
    and r: "r \<le> unat d"
  shows "tx_wait self r"
proof (cases "T0 \<le> T0 + d")
  case True
  then have "unat (T0 + d) = unat T0 + unat d"
    by (simp add: unat_plus_simple)
  then show ?thesis
    using assms True by (simp add: tx_wait_def)
next
  case False
  then have ov: "\<not> unat T0 + unat d < 2 ^ 32"
    by (simp add: no_olen_add_nat)
  then have u: "unat (T0 + d) = unat T0 + unat d - 2 ^ 32"
    by (simp add: unat_plus_if')
  have "T0 \<noteq> 0" using False by auto
  moreover have "T0 + d < T0" using False by simp
  moreover have "unat T0 + r \<le> unat (T0 + d) + 2 ^ 32"
    using u ov r by simp
  ultimately show ?thesis
    using assms False by (simp add: tx_wait_def)
qed

lemma wait_zero_due: "tx_wait self 0 \<Longrightarrow> tx_due self 0"
  using unsigned_less [of "tx_target_time self", where 'a = nat]
  by (auto simp: tx_wait_def tx_due_def word_less_nat_alt split: if_splits)

lemma tx_quiet_refl: "tx_quiet h s s"
  by (simp add: tx_quiet_def)

lemma tx_quiet_trans: "tx_quiet h s s' \<Longrightarrow> tx_quiet h s' s'' \<Longrightarrow> tx_quiet h s s''"
  by (auto simp: tx_quiet_def)

lemma tx_wait_cong:
  "tx_buffer_cur a = tx_buffer_cur b \<Longrightarrow> tx_buffer_len a = tx_buffer_len b \<Longrightarrow>
   tx_target_time a = tx_target_time b \<Longrightarrow> tx_await_wrap a = tx_await_wrap b \<Longrightarrow>
   tx_wait a r = tx_wait b r"
  by (simp add: tx_wait_def)

lemma tx_wait_mono: "tx_wait self r \<Longrightarrow> r' \<le> r \<Longrightarrow> tx_wait self r'"
  by (auto simp: tx_wait_def split: if_splits)

lemma main_loop_iter_tx:
  assumes "self_id < length (wio_inst s)" and "rx_buffer_len (wio_inst s ! self_id) \<noteq> 0"
  shows "\<exists>s'. main_loop_iter self_id t current_rx s = Inr s'
     \<and> length (wio_inst s') = length (wio_inst s)
     \<and> gpio_writes s'
         = gpio_writes s @ snd (handle_transmissions (memory s) t (wio_inst s ! self_id))
     \<and> tx_buffer_cur (wio_inst s' ! self_id)
         = tx_buffer_cur (fst (handle_transmissions (memory s) t (wio_inst s ! self_id)))
     \<and> tx_target_time (wio_inst s' ! self_id)
         = tx_target_time (fst (handle_transmissions (memory s) t (wio_inst s ! self_id)))
     \<and> tx_await_wrap (wio_inst s' ! self_id)
         = tx_await_wrap (fst (handle_transmissions (memory s) t (wio_inst s ! self_id)))
     \<and> tx_buffer_len (wio_inst s' ! self_id) = tx_buffer_len (wio_inst s ! self_id)
     \<and> tx_buffer (wio_inst s' ! self_id) = tx_buffer (wio_inst s ! self_id)
     \<and> tx_pin (wio_inst s' ! self_id) = tx_pin (wio_inst s ! self_id)
     \<and> rx_buffer_len (wio_inst s' ! self_id) = rx_buffer_len (wio_inst s ! self_id)
     \<and> rx_buffer (wio_inst s' ! self_id) = rx_buffer (wio_inst s ! self_id)"
  using assms
  by (simp add: main_loop_iter_def handle_reception_def case_prod_beta handle_transmissions_frame)

lemma wait_iter:
  assumes h: "self_id < length (wio_inst s)" and rx: "rx_buffer_len (wio_inst s ! self_id) \<noteq> 0"
    and T: "tx_target_time (wio_inst s ! self_id) = clock \<tau>"
    and w: "tx_wait (wio_inst s ! self_id) (\<tau> - t)" and t: "t < \<tau>"
  shows "\<exists>s'. main_loop_iter self_id (clock t) current_rx s = Inr s' \<and> tx_quiet self_id s s'
     \<and> (\<forall>r' \<le> \<tau> - t. tx_wait (wio_inst s' ! self_id) r')"
proof -
  let ?i = "wio_inst s ! self_id"
  have now: "clock t = tx_target_time ?i - of_nat (\<tau> - t)"
    using t by (simp add: T clock_def of_nat_diff)
  have r: "0 < \<tau> - t" using t by simp
  note nf = wait_no_fire [OF w r, of "memory s", folded now]
  obtain s' where s': "main_loop_iter self_id (clock t) current_rx s = Inr s'"
    and f: "length (wio_inst s') = length (wio_inst s)"
     "gpio_writes s'
         = gpio_writes s @ snd (handle_transmissions (memory s) (clock t) ?i)"
     "tx_buffer_cur (wio_inst s' ! self_id)
         = tx_buffer_cur (fst (handle_transmissions (memory s) (clock t) ?i))"
     "tx_target_time (wio_inst s' ! self_id)
         = tx_target_time (fst (handle_transmissions (memory s) (clock t) ?i))"
     "tx_await_wrap (wio_inst s' ! self_id)
         = tx_await_wrap (fst (handle_transmissions (memory s) (clock t) ?i))"
     "tx_buffer_len (wio_inst s' ! self_id) = tx_buffer_len ?i"
     "tx_buffer (wio_inst s' ! self_id) = tx_buffer ?i"
     "tx_pin (wio_inst s' ! self_id) = tx_pin ?i"
     "rx_buffer_len (wio_inst s' ! self_id) = rx_buffer_len ?i"
     "rx_buffer (wio_inst s' ! self_id) = rx_buffer ?i"
    using main_loop_iter_tx [OF h rx, of "clock t" current_rx] by blast
  have q: "tx_quiet self_id s s'"
    using f nf by (auto simp: tx_quiet_def)
  have "tx_wait (wio_inst s' ! self_id) r'" if "r' \<le> \<tau> - t" for r'
  proof -
    have "tx_wait (fst (handle_transmissions (memory s) (clock t) ?i)) r'"
      using nf that by blast
    moreover have "tx_wait (wio_inst s' ! self_id) r'
        = tx_wait (fst (handle_transmissions (memory s) (clock t) ?i)) r'"
      by (rule tx_wait_cong) (simp_all add: f handle_transmissions_frame)
    ultimately show ?thesis by simp
  qed
  then show ?thesis using s' q by blast
qed

lemma wait_run:
  assumes "self_id < length (wio_inst s)" and "rx_buffer_len (wio_inst s ! self_id) \<noteq> 0"
    and "tx_target_time (wio_inst s ! self_id) = clock \<tau>"
    and "tx_wait (wio_inst s ! self_id) (\<tau> - t)"
    and "sorted (map fst ps)" and "\<forall>p \<in> set ps. t \<le> fst p \<and> fst p < \<tau>"
  shows "\<exists>s'. main_loop_iters self_id (samples ps) s = Inr s' \<and> tx_quiet self_id s s'
     \<and> (\<forall>t'. t \<le> t' \<and> (\<forall>p \<in> set ps. fst p \<le> t') \<longrightarrow>
            tx_wait (wio_inst s' ! self_id) (\<tau> - t'))"
  using assms
proof (induction ps arbitrary: s t)
  case Nil
  then show ?case
    by (auto simp: samples_def tx_quiet_refl intro: tx_wait_mono)
next
  case (Cons p ps)
  obtain t1 rx1 where p: "p = (t1, rx1)" by (cases p)
  have t1: "t \<le> t1" "t1 < \<tau>" using Cons.prems(6) by (simp_all add: p)
  have w1: "tx_wait (wio_inst s ! self_id) (\<tau> - t1)"
    using Cons.prems(4) t1 by (auto intro: tx_wait_mono)
  obtain s1 where s1: "main_loop_iter self_id (clock t1) rx1 s = Inr s1"
    and q1: "tx_quiet self_id s s1"
    and w': "\<forall>r' \<le> \<tau> - t1. tx_wait (wio_inst s1 ! self_id) r'"
    using wait_iter [OF Cons.prems(1,2,3) w1 t1(2), of rx1] by blast
  have pre: "self_id < length (wio_inst s1)" "rx_buffer_len (wio_inst s1 ! self_id) \<noteq> 0"
    "tx_target_time (wio_inst s1 ! self_id) = clock \<tau>"
    "tx_wait (wio_inst s1 ! self_id) (\<tau> - t1)"
    using q1 Cons.prems(1,2,3) w' by (simp_all add: tx_quiet_def)
  have srt: "sorted (map fst ps)" and bnd: "\<forall>q \<in> set ps. t1 \<le> fst q \<and> fst q < \<tau>"
    using Cons.prems(5,6) by (auto simp: p)
  obtain s' where s': "main_loop_iters self_id (samples ps) s1 = Inr s'"
    and q': "tx_quiet self_id s1 s'"
    and w'': "\<forall>t'. t1 \<le> t' \<and> (\<forall>q \<in> set ps. fst q \<le> t') \<longrightarrow>
            tx_wait (wio_inst s' ! self_id) (\<tau> - t')"
    using Cons.IH [OF pre srt bnd] by blast
  have "main_loop_iters self_id (samples (p # ps)) s = Inr s'"
    using s1 s' by (simp add: samples_def p)
  moreover have "tx_quiet self_id s s'"
    using q1 q' by (rule tx_quiet_trans)
  moreover have "\<forall>t'. t \<le> t' \<and> (\<forall>q \<in> set (p # ps). fst q \<le> t') \<longrightarrow>
            tx_wait (wio_inst s' ! self_id) (\<tau> - t')"
    using w'' by (simp add: p)
  ultimately show ?case by blast
qed

lemma due_iter:
  assumes h: "self_id < length (wio_inst s)" and rx: "rx_buffer_len (wio_inst s ! self_id) \<noteq> 0"
    and T: "tx_target_time (wio_inst s ! self_id) = clock \<tau>"
    and d: "tx_due (wio_inst s ! self_id) l"
  shows "\<exists>s'. main_loop_iter self_id (clock (\<tau> + l)) current_rx s = Inr s'
     \<and> length (wio_inst s') = length (wio_inst s)
     \<and> gpio_writes s' = gpio_writes s @ [(tx_pin (wio_inst s ! self_id),
                                            NOT (tx_buffer_cur (wio_inst s ! self_id)) AND 1)]
     \<and> tx_buffer_cur (wio_inst s' ! self_id) = tx_buffer_cur (wio_inst s ! self_id) + 1
     \<and> tx_target_time (wio_inst s' ! self_id)
         = clock \<tau> + memory s (tx_buffer (wio_inst s ! self_id)
                                 + unat (tx_buffer_cur (wio_inst s ! self_id)))
     \<and> tx_await_wrap (wio_inst s' ! self_id)
         = (if clock \<tau> \<le> clock \<tau> + memory s (tx_buffer (wio_inst s ! self_id)
                                             + unat (tx_buffer_cur (wio_inst s ! self_id)))
            then 0 else clock \<tau>)
     \<and> tx_buffer_len (wio_inst s' ! self_id) = tx_buffer_len (wio_inst s ! self_id)
     \<and> tx_buffer (wio_inst s' ! self_id) = tx_buffer (wio_inst s ! self_id)
     \<and> tx_pin (wio_inst s' ! self_id) = tx_pin (wio_inst s ! self_id)
     \<and> rx_buffer_len (wio_inst s' ! self_id) = rx_buffer_len (wio_inst s ! self_id)
     \<and> rx_buffer (wio_inst s' ! self_id) = rx_buffer (wio_inst s ! self_id)"
proof -
  have now: "clock (\<tau> + l) = tx_target_time (wio_inst s ! self_id) + of_nat l"
    by (simp add: T clock_def)
  show ?thesis
    using main_loop_iter_tx [OF h rx, of "clock (\<tau> + l)" current_rx]
      due_fires [OF d, of "memory s", folded now]
    by (auto simp: T)
qed

lemma late_bound:
  fixes T0 :: u32
  assumes "T0 \<le> clock t0"
  shows "unat (clock t0 - T0) + unat T0 \<le> t0"
    and "unat (clock t0 - T0) + unat T0 < 2 ^ 32"
proof -
  have "unat (clock t0 - T0) = unat (clock t0) - unat T0"
    using assms by (simp add: unat_sub)
  moreover have "unat T0 \<le> unat (clock t0)"
    using assms by (simp add: word_le_nat_alt)
  moreover have "unat (clock t0) \<le> t0"
    by (simp add: clock_def unat_of_nat)
  moreover have "unat (clock t0) < 2 ^ 32"
    using unsigned_less [of "clock t0", where 'a = nat] by simp
  ultimately show "unat (clock t0 - T0) + unat T0 \<le> t0"
    and "unat (clock t0 - T0) + unat T0 < 2 ^ 32"
    by simp_all
qed

lemma clock_deadline:
  fixes T0 d :: u32
  assumes "T0 \<le> clock t0" and "unat (clock t0 - T0) \<le> unat d"
  shows "clock (t0 + unat d - unat (clock t0 - T0)) = T0 + d"
proof -
  have "unat (clock t0 - T0) \<le> t0 + unat d"
    using assms(2) by simp
  then have "clock (t0 + unat d - unat (clock t0 - T0))
          = of_nat (t0 + unat d) - of_nat (unat (clock t0 - T0))"
    unfolding clock_def by (rule of_nat_diff)
  also have "\<dots> = clock t0 + d - (clock t0 - T0)"
    by (simp add: clock_def)
  finally show ?thesis by simp
qed

text \<open>
  What the wrap guard ensures. An iteration at true time \<open>t0\<close> fires a transition whose deadline
  computation \<open>T_old + d\<close> overflows the counter, where \<open>T_old\<close> is the deadline
  of that transition (the sampled time itself for the first one), \<open>d\<close> the buffer
  entry, and \<open>late\<close> the number of ticks by which the iteration came after
  \<open>T_old\<close>. Then, whatever the later iterations sample at increasing times: as
  long as fewer than \<open>d\<close> ticks have passed since \<open>T_old\<close>, none of them fires,
  and the deadline stays \<open>T_old + d\<close> modulo \<open>2 ^ 32\<close>; and the first iteration
  that samples the timer when at least \<open>d\<close> and fewer than \<open>2 ^ 32\<close> ticks
  have passed since \<open>T_old\<close> fires the next transition. This holds for every
  \<open>d\<close> up to \<open>2 ^ 32 - 1\<close>.
\<close>

theorem wrap_guard_window:
  fixes T_old d :: u32
  assumes h: "self_id < length (wio_inst s)"
    and rx: "rx_buffer_len (wio_inst s ! self_id) \<noteq> 0"
    and fire: "main_loop_iter self_id (clock t0) rx0 s = Inr s1"
    and fired: "tx_buffer_cur (wio_inst s1 ! self_id) \<noteq> tx_buffer_cur (wio_inst s ! self_id)"
    and more: "tx_buffer_cur (wio_inst s1 ! self_id) \<noteq> 0"
      "tx_buffer_cur (wio_inst s1 ! self_id) \<noteq> tx_buffer_len (wio_inst s ! self_id)"
    and T_old: "T_old = (if tx_buffer_cur (wio_inst s ! self_id) = 0 then clock t0
                         else tx_target_time (wio_inst s ! self_id))"
    and d: "d = memory s (tx_buffer (wio_inst s ! self_id)
                          + unat (tx_buffer_cur (wio_inst s ! self_id)))"
    and overflow: "2 ^ 32 \<le> unat T_old + unat d"
    and late: "late = unat (clock t0 - T_old)"
    and sorted: "sorted (map fst ps)"
    and early: "\<forall>p \<in> set ps. t0 \<le> fst p \<and> fst p + late < t0 + unat d"
  shows "\<exists>s2. main_loop_iters self_id (samples ps) s1 = Inr s2
     \<and> tx_buffer_cur (wio_inst s2 ! self_id) = tx_buffer_cur (wio_inst s1 ! self_id)
     \<and> gpio_writes s2 = gpio_writes s1
     \<and> tx_target_time (wio_inst s2 ! self_id) = T_old + d
     \<and> (\<forall>t current_rx.
           t0 \<le> t \<and> (\<forall>p \<in> set ps. fst p \<le> t) \<and> t0 + unat d \<le> t + late
             \<and> t + late < t0 + 2 ^ 32 \<longrightarrow>
           (\<exists>s3. main_loop_iter self_id (clock t) current_rx s2 = Inr s3
              \<and> tx_buffer_cur (wio_inst s3 ! self_id)
                  = tx_buffer_cur (wio_inst s1 ! self_id) + 1
              \<and> gpio_writes s3
                  = gpio_writes s2 @ [(tx_pin (wio_inst s ! self_id),
                                       NOT (tx_buffer_cur (wio_inst s1 ! self_id)) AND 1)]))"
proof -
  let ?i = "wio_inst s ! self_id" and ?i1 = "wio_inst s1 ! self_id"
  let ?ht = "handle_transmissions (memory s) (clock t0) ?i"
  \<comment> \<open>the state after the transition at \<open>t0\<close>\<close>
  have f1: "length (wio_inst s1) = length (wio_inst s)"
    "tx_buffer_cur ?i1 = tx_buffer_cur (fst ?ht)"
    "tx_target_time ?i1 = tx_target_time (fst ?ht)"
    "tx_await_wrap ?i1 = tx_await_wrap (fst ?ht)"
    "tx_buffer_len ?i1 = tx_buffer_len ?i" "tx_pin ?i1 = tx_pin ?i"
    "rx_buffer_len ?i1 = rx_buffer_len ?i"
    using main_loop_iter_tx [OF h rx, of "clock t0" rx0] fire by auto
  have ff: "T_old \<le> clock t0" "tx_target_time ?i1 = T_old + d"
    "tx_await_wrap ?i1 = (if T_old \<le> T_old + d then 0 else T_old)"
    using fired_facts [of "memory s" "clock t0" ?i] fired
    unfolding f1 [symmetric] T_old d by simp_all
  have nle: "\<not> T_old \<le> T_old + d"
    using overflow by (simp add: no_olen_add_nat)
  have W1: "tx_await_wrap ?i1 = T_old" "T_old \<noteq> 0"
    using ff(3) nle by auto
  have uT1: "unat (T_old + d) + 2 ^ 32 = unat T_old + unat d"
    using overflow by (simp add: unat_plus_if')
  \<comment> \<open>the deadline in true time\<close>
  have lb: "late + unat T_old \<le> t0" "late + unat T_old < 2 ^ 32"
    using late_bound [OF ff(1)] late by simp_all
  then have ld: "late < unat d" using overflow by simp
  define \<tau> where "\<tau> = t0 + unat d - late"
  have \<tau>: "clock \<tau> = T_old + d"
    unfolding \<tau>_def late using ff(1) ld [unfolded late] by (intro clock_deadline) simp_all
  have T1: "tx_target_time ?i1 = clock \<tau>"
    using ff(2) \<tau> by simp
  have w1: "tx_wait ?i1 (\<tau> - t0)"
  proof (rule post_fire_wait [OF more(1) _ ff(2) ff(3)])
    show "tx_buffer_cur ?i1 \<noteq> tx_buffer_len ?i1" using more(2) f1 by simp
    show "\<tau> - t0 \<le> unat d" by (simp add: \<tau>_def)
  qed
  have h1: "self_id < length (wio_inst s1)" and rx1: "rx_buffer_len ?i1 \<noteq> 0"
    using h rx f1 by simp_all
  have bnd: "\<forall>p \<in> set ps. t0 \<le> fst p \<and> fst p < \<tau>"
    using early ld by (auto simp: \<tau>_def)
  obtain s2 where s2: "main_loop_iters self_id (samples ps) s1 = Inr s2"
    and q: "tx_quiet self_id s1 s2"
    using wait_run [OF h1 rx1 T1 w1 sorted bnd] by blast
  let ?i2 = "wio_inst s2 ! self_id"
  have fires: "\<exists>s3. main_loop_iter self_id (clock t) current_rx s2 = Inr s3
              \<and> tx_buffer_cur (wio_inst s3 ! self_id) = tx_buffer_cur ?i1 + 1
              \<and> gpio_writes s3 = gpio_writes s2 @ [(tx_pin ?i, NOT (tx_buffer_cur ?i1) AND 1)]"
    if t: "t0 + unat d \<le> t + late" "t + late < t0 + 2 ^ 32" for t current_rx
  proof -
    define l where "l = t - \<tau>"
    have tl: "t = \<tau> + l" using t(1) by (simp add: l_def \<tau>_def)
    have l: "unat (T_old + d) + l < unat T_old"
      using t uT1 ld by (simp add: l_def \<tau>_def)
    have "tx_await_wrap ?i2 = 0 \<or> tx_await_wrap ?i2 = T_old"
      using q W1 by (auto simp: tx_quiet_def)
    then have due: "tx_due ?i2 l"
      using q more f1 ff(2) l W1(2) unsigned_less [of T_old, where 'a = nat]
      by (auto simp: tx_due_def tx_quiet_def)
    have h2: "self_id < length (wio_inst s2)" and rx2: "rx_buffer_len ?i2 \<noteq> 0"
      and T2: "tx_target_time ?i2 = clock \<tau>"
      using q h1 rx1 T1 by (simp_all add: tx_quiet_def)
    show ?thesis
      using due_iter [OF h2 rx2 T2 due, of current_rx] q f1
      by (auto simp: tl tx_quiet_def)
  qed
  show ?thesis
    using s2 q fires ff(2) by (auto simp: tx_quiet_def)
qed

lemma guard_holds_iter:
  assumes h: "self_id < length (wio_inst s)" and rx: "rx_buffer_len (wio_inst s ! self_id) \<noteq> 0"
    and c: "tx_buffer_cur (wio_inst s ! self_id) \<noteq> 0"
    and w: "tx_await_wrap (wio_inst s ! self_id) \<noteq> 0"
      "tx_await_wrap (wio_inst s ! self_id) \<le> now"
  shows "\<exists>s'. main_loop_iter self_id now current_rx s = Inr s' \<and> tx_quiet self_id s s'
     \<and> tx_await_wrap (wio_inst s' ! self_id) = tx_await_wrap (wio_inst s ! self_id)"
proof -
  have "\<not> now < tx_await_wrap (wio_inst s ! self_id)"
    using w(2) by simp
  then have "handle_transmissions (memory s) now (wio_inst s ! self_id)
               = (wio_inst s ! self_id, [])"
    using c w(1) by (simp add: handle_transmissions_def Let_def)
  then show ?thesis
    using main_loop_iter_tx [OF h rx, of now current_rx] by (auto simp: tx_quiet_def)
qed

lemma guard_holds_run:
  assumes "self_id < length (wio_inst s)" and "rx_buffer_len (wio_inst s ! self_id) \<noteq> 0"
    and "tx_buffer_cur (wio_inst s ! self_id) \<noteq> 0"
    and "tx_await_wrap (wio_inst s ! self_id) \<noteq> 0"
    and "\<forall>p \<in> set ps. tx_await_wrap (wio_inst s ! self_id) \<le> clock (fst p)"
  shows "\<exists>s'. main_loop_iters self_id (samples ps) s = Inr s' \<and> tx_quiet self_id s s'"
  using assms
proof (induction ps arbitrary: s)
  case Nil
  then show ?case by (simp add: samples_def tx_quiet_refl)
next
  case (Cons p ps)
  obtain s1 where s1: "main_loop_iter self_id (clock (fst p)) (snd p) s = Inr s1"
    and q1: "tx_quiet self_id s s1"
    and w1: "tx_await_wrap (wio_inst s1 ! self_id) = tx_await_wrap (wio_inst s ! self_id)"
    using guard_holds_iter [OF Cons.prems(1,2,3,4), of "clock (fst p)" "snd p"] Cons.prems(5)
    by auto
  have pre: "self_id < length (wio_inst s1)" "rx_buffer_len (wio_inst s1 ! self_id) \<noteq> 0"
    "tx_buffer_cur (wio_inst s1 ! self_id) \<noteq> 0" "tx_await_wrap (wio_inst s1 ! self_id) \<noteq> 0"
    "\<forall>p \<in> set ps. tx_await_wrap (wio_inst s1 ! self_id) \<le> clock (fst p)"
    using q1 w1 Cons.prems by (simp_all add: tx_quiet_def)
  obtain s' where "main_loop_iters self_id (samples ps) s1 = Inr s'" "tx_quiet self_id s1 s'"
    using Cons.IH [OF pre] by blast
  then show ?case
    using s1 q1 by (auto simp: samples_def intro: tx_quiet_trans)
qed

lemma clock_odd: "1 \<le> clock (2 * k + 3)"
proof -
  have "\<not> (2::nat) dvd 2 * k + 3" by presburger
  then have "\<not> (2::nat) ^ 32 dvd 2 * k + 3"
    by (metis dvd_trans dvd_power zero_less_numeral)
  then have "clock (2 * k + 3) \<noteq> 0"
    unfolding clock_def by (subst word_of_nat_eq_0_iff) simp
  then show ?thesis
    by (simp add: word_le_nat_alt unat_gt_0 Suc_le_eq)
qed

lemma odd_samples_clock: "\<forall>p \<in> set (odd_samples n). 1 \<le> clock (fst p)"
  by (auto simp: odd_samples_def clock_odd)

lemma window_start_eval:
  "length (wio_inst window_start) = 8
   \<and> rx_buffer_len (wio_inst window_start ! 0) = 16
   \<and> tx_buffer_len (wio_inst window_start ! 0) = 2
   \<and> tx_buffer_cur (fst (handle_transmissions (memory window_start) (clock 1)
        (wio_inst window_start ! 0))) = 1
   \<and> tx_target_time (fst (handle_transmissions (memory window_start) (clock 1)
        (wio_inst window_start ! 0))) = 0
   \<and> tx_await_wrap (fst (handle_transmissions (memory window_start) (clock 1)
        (wio_inst window_start ! 0))) = 1"
  by code_simp

lemma window_fired_facts:
  "main_loop_iter 0 (clock 1) 0 window_start = Inr window_fired"
  "length (wio_inst window_fired) = 8"
  "rx_buffer_len (wio_inst window_fired ! 0) = 16"
  "tx_buffer_len (wio_inst window_fired ! 0) = 2"
  "tx_buffer_cur (wio_inst window_fired ! 0) = 1"
  "tx_target_time (wio_inst window_fired ! 0) = 0"
  "tx_await_wrap (wio_inst window_fired ! 0) = 1"
proof -
  note ev = window_start_eval [THEN conjunct1]
    window_start_eval [THEN conjunct2, THEN conjunct1]
    window_start_eval [THEN conjunct2, THEN conjunct2, THEN conjunct1]
    window_start_eval [THEN conjunct2, THEN conjunct2, THEN conjunct2, THEN conjunct1]
    window_start_eval [THEN conjunct2, THEN conjunct2, THEN conjunct2, THEN conjunct2,
      THEN conjunct1]
    window_start_eval [THEN conjunct2, THEN conjunct2, THEN conjunct2, THEN conjunct2,
      THEN conjunct2]
  have h: "0 < length (wio_inst window_start)"
    and rx: "rx_buffer_len (wio_inst window_start ! 0) \<noteq> 0"
    by (simp_all add: ev(1,2))
  obtain s' where s': "main_loop_iter 0 (clock 1) 0 window_start = Inr s'"
    and f: "length (wio_inst s') = length (wio_inst window_start)"
      "tx_buffer_cur (wio_inst s' ! 0)
         = tx_buffer_cur (fst (handle_transmissions (memory window_start) (clock 1)
              (wio_inst window_start ! 0)))"
      "tx_target_time (wio_inst s' ! 0)
         = tx_target_time (fst (handle_transmissions (memory window_start) (clock 1)
              (wio_inst window_start ! 0)))"
      "tx_await_wrap (wio_inst s' ! 0)
         = tx_await_wrap (fst (handle_transmissions (memory window_start) (clock 1)
              (wio_inst window_start ! 0)))"
      "tx_buffer_len (wio_inst s' ! 0) = tx_buffer_len (wio_inst window_start ! 0)"
      "rx_buffer_len (wio_inst s' ! 0) = rx_buffer_len (wio_inst window_start ! 0)"
    using main_loop_iter_tx [OF h rx, of "clock 1" 0] by blast
  have eq: "window_fired = s'" unfolding window_fired_def s' by simp
  show "main_loop_iter 0 (clock 1) 0 window_start = Inr window_fired"
    unfolding eq by (rule s')
  show "length (wio_inst window_fired) = 8"
    unfolding eq using f(1) ev(1) by (rule trans)
  show "rx_buffer_len (wio_inst window_fired ! 0) = 16"
    unfolding eq using f(6) ev(2) by (rule trans)
  show "tx_buffer_len (wio_inst window_fired ! 0) = 2"
    unfolding eq using f(5) ev(3) by (rule trans)
  show "tx_buffer_cur (wio_inst window_fired ! 0) = 1"
    unfolding eq using f(2) ev(4) by (rule trans)
  show "tx_target_time (wio_inst window_fired ! 0) = 0"
    unfolding eq using f(3) ev(5) by (rule trans)
  show "tx_await_wrap (wio_inst window_fired ! 0) = 1"
    unfolding eq using f(4) ev(6) by (rule trans)
qed

text \<open>
  Deadlines are absolute. In \<open>late_start\<close> the transition of cursor 1 is due at 110
  and fires at 160; its entry \<open>2 ^ 32 - 60\<close> makes the deadline wrap to 50, and the
  next transition fires at true time \<open>2 ^ 32 + 50\<close>, which is \<open>2 ^ 32 - 110\<close> ticks
  after the late one.
\<close>

lemma late_samples:
  "samples [(100, 0), (160, 0)] = [(100, 0), (160, 0)]"
  "samples [(100, 0), (160, 0), (4294967346, 0)] = [(100, 0), (160, 0), (50, 0)]"
  by (simp_all add: samples_def clock_def)

lemma late_words_eval:
  "map_sum id (wio_tx_cursor 0) (main_loop_iters 0 [(100, 0), (160, 0)] late_start) = Inr 2
   \<and> map_sum id (wio_tx_target 0) (main_loop_iters 0 [(100, 0), (160, 0)] late_start) = Inr 50
   \<and> map_sum id (wio_tx_cursor 0)
        (main_loop_iters 0 [(100, 0), (160, 0), (50, 0)] late_start) = Inr 3"
  by code_simp

lemma late_run_eval:
  "map_sum id (wio_tx_cursor 0)
     (main_loop_iters 0 (samples [(100, 0), (160, 0)]) late_start) = Inr 2
   \<and> map_sum id (wio_tx_target 0)
     (main_loop_iters 0 (samples [(100, 0), (160, 0)]) late_start) = Inr 50
   \<and> map_sum id (wio_tx_cursor 0)
     (main_loop_iters 0 (samples [(100, 0), (160, 0), (4294967346, 0)]) late_start) = Inr 3
   \<and> (4294967346::nat) - 160 < unat (deadline_memory 101)"
proof -
  have "(4294967346::nat) - 160 < unat (deadline_memory 101)"
    by (simp add: deadline_memory_def)
  then show ?thesis
    unfolding late_samples using late_words_eval by blast
qed

lemma window_run_a:
  "\<exists>s'. main_loop_iters 0 (samples (odd_samples n)) window_fired = Inr s'
     \<and> tx_quiet 0 window_fired s'"
proof -
  have "\<forall>p \<in> set (odd_samples n). tx_await_wrap (wio_inst window_fired ! 0) \<le> clock (fst p)"
    unfolding window_fired_facts by (rule odd_samples_clock)
  moreover have "0 < length (wio_inst window_fired)"
    "rx_buffer_len (wio_inst window_fired ! 0) \<noteq> 0"
    "tx_buffer_cur (wio_inst window_fired ! 0) \<noteq> 0"
    "tx_await_wrap (wio_inst window_fired ! 0) \<noteq> 0"
    unfolding window_fired_facts by simp_all
  ultimately show ?thesis
    by (intro guard_holds_run)
qed

text \<open>
  C1. An interval of \<open>2 ^ 32 - 1\<close> cycles, which the comment on \<^verbatim>\<open>wio_tx_start\<close>
  gives as the maximum supported, is not waited out. In \<open>window_start\<close> the first
  entry of the transmission is \<open>2 ^ 32 - 1\<close>. The first iteration samples the timer
  at 1 and fires the first transition; the deadline of the second becomes
  \<open>1 + (2 ^ 32 - 1)\<close>, which is 0 modulo \<open>2 ^ 32\<close>, and the guard is set to the old
  deadline 1. The guard is cleared only by an iteration that samples the timer below
  it, that is at 0. A loop that samples the timer every other tick, at the odd times 3,
  5, 7 and so on, never does: however many iterations it runs, the cursor stays 1, the
  deadline stays 0, and the second transition, due at true time \<open>2 ^ 32\<close>, never fires.
\<close>

theorem max_interval_never_fires:
  "memory window_start (tx_buffer (wio_inst window_start ! 0)) = 4294967295
   \<and> map_sum id (wio_tx_cursor 0)
        (main_loop_iters 0 (samples ((1, 0) # odd_samples n)) window_start) = Inr 1
   \<and> map_sum id (wio_tx_target 0)
        (main_loop_iters 0 (samples ((1, 0) # odd_samples n)) window_start) = Inr 0"
proof -
  have m: "memory window_start (tx_buffer (wio_inst window_start ! 0)) = 4294967295"
    by code_simp
  obtain s' where s': "main_loop_iters 0 (samples (odd_samples n)) window_fired = Inr s'"
    and q: "tx_quiet 0 window_fired s'"
    using window_run_a by blast
  have u: "samples ((1, 0) # odd_samples n) = (clock 1, 0) # samples (odd_samples n)"
    unfolding samples_def by simp
  have run: "main_loop_iters 0 (samples ((1, 0) # odd_samples n)) window_start = Inr s'"
    unfolding u main_loop_iters.simps window_fired_facts(1) using s' by simp
  have "wio_tx_cursor 0 s' = 1" "wio_tx_target 0 s' = 0"
    using q window_fired_facts(5,6)
    by (simp_all add: wio_tx_cursor_def wio_tx_target_def tx_quiet_def)
  then show ?thesis
    unfolding run using m by simp
qed

lemma window_start_fields:
  "tx_buffer_cur (wio_inst window_start ! 0) = 0"
  "tx_buffer (wio_inst window_start ! 0) = 110"
  "memory window_start 110 = 4294967295"
  by code_simp+

theorem wrap_guard_window_example:
  "0 < length (wio_inst window_start)
   \<and> main_loop_iter 0 (clock 1) 0 window_start = Inr window_fired
   \<and> tx_buffer_cur (wio_inst window_fired ! 0) \<noteq> tx_buffer_cur (wio_inst window_start ! 0)
   \<and> 2 ^ 32 \<le> unat (clock 1) + unat (memory window_start 110)
   \<and> (\<exists>s2. main_loop_iters 0 (samples [(3, 0), (1000, 1), (4294967295, 0)]) window_fired = Inr s2
         \<and> tx_buffer_cur (wio_inst s2 ! 0) = 1
         \<and> tx_target_time (wio_inst s2 ! 0) = 0
         \<and> (\<exists>s3. main_loop_iter 0 (clock 4294967296) 0 s2 = Inr s3
               \<and> tx_buffer_cur (wio_inst s3 ! 0) = 2))"
proof -
  have h: "0 < length (wio_inst window_start)"
    and rx: "rx_buffer_len (wio_inst window_start ! 0) \<noteq> 0"
    using window_start_eval by simp_all
  have fired: "tx_buffer_cur (wio_inst window_fired ! 0) \<noteq> tx_buffer_cur (wio_inst window_start ! 0)"
    and more: "tx_buffer_cur (wio_inst window_fired ! 0) \<noteq> 0"
      "tx_buffer_cur (wio_inst window_fired ! 0) \<noteq> tx_buffer_len (wio_inst window_start ! 0)"
    using window_start_eval by (simp_all add: window_fired_facts window_start_fields)
  have T_old: "clock 1 = (if tx_buffer_cur (wio_inst window_start ! 0) = 0 then clock 1
                          else tx_target_time (wio_inst window_start ! 0))"
    by (simp add: window_start_fields)
  have d: "4294967295 = memory window_start (tx_buffer (wio_inst window_start ! 0)
                          + unat (tx_buffer_cur (wio_inst window_start ! 0)))"
    by (simp add: window_start_fields)
  have c1: "unat (clock 1) = 1" by (simp add: clock_def)
  have ov: "2 ^ 32 \<le> unat (clock 1) + unat (4294967295 :: u32)"
    unfolding c1 by simp
  have late: "0 = unat (clock 1 - clock 1)" by simp
  have srt: "sorted (map fst [(3, 0), (1000, 1), (4294967295 :: nat, 0 :: u32)])" by simp
  have early: "\<forall>p \<in> set [(3, 0), (1000, 1), (4294967295 :: nat, 0 :: u32)].
                 1 \<le> fst p \<and> fst p + 0 < 1 + unat (4294967295 :: u32)"
    by simp
  from wrap_guard_window [OF h rx window_fired_facts(1) fired more T_old d ov late srt early]
  obtain s2 where s2: "main_loop_iters 0 (samples [(3, 0), (1000, 1), (4294967295, 0)])
                         window_fired = Inr s2"
    and c2: "tx_buffer_cur (wio_inst s2 ! 0) = tx_buffer_cur (wio_inst window_fired ! 0)"
    and t2: "tx_target_time (wio_inst s2 ! 0) = clock 1 + 4294967295"
    and nx: "\<forall>t current_rx.
           1 \<le> t \<and> (\<forall>p \<in> set [(3, 0), (1000, 1), (4294967295 :: nat, 0 :: u32)]. fst p \<le> t)
             \<and> 1 + unat (4294967295 :: u32) \<le> t + 0 \<and> t + 0 < 1 + 2 ^ 32 \<longrightarrow>
           (\<exists>s3. main_loop_iter 0 (clock t) current_rx s2 = Inr s3
              \<and> tx_buffer_cur (wio_inst s3 ! 0)
                  = tx_buffer_cur (wio_inst window_fired ! 0) + 1)"
    by blast
  have "\<exists>s3. main_loop_iter 0 (clock 4294967296) 0 s2 = Inr s3
              \<and> tx_buffer_cur (wio_inst s3 ! 0) = tx_buffer_cur (wio_inst window_fired ! 0) + 1"
    by (rule nx [rule_format]) simp
  then have "\<exists>s3. main_loop_iter 0 (clock 4294967296) 0 s2 = Inr s3
              \<and> tx_buffer_cur (wio_inst s3 ! 0) = 2"
    by (simp add: window_fired_facts)
  moreover have "tx_target_time (wio_inst s2 ! 0) = 0"
    using t2 by (simp add: clock_def)
  moreover have "tx_buffer_cur (wio_inst s2 ! 0) = 1"
    using c2 by (simp add: window_fired_facts)
  moreover have "2 ^ 32 \<le> unat (clock 1) + unat (memory window_start 110)"
    using ov by (simp add: window_start_fields)
  ultimately show ?thesis
    using h window_fired_facts(1) fired s2 by blast
qed

section \<open>Transmit completion\<close>

lemma ticks_append: "ticks t (n + m) level = ticks t n level @ ticks (t + n) m level"
proof -
  have a: "[0..<n + m] = [0..<n] @ [n..<n + m]"
    by (rule upt_add_eq_append) simp
  have b: "[n..<n + m] = map (\<lambda>k. k + n) [0..<m]"
    unfolding map_add_upt by (simp only: add.commute)
  have c: "t + (k + n) = t + n + k" for k by simp
  show ?thesis
    unfolding ticks_def a b map_append map_map comp_def c ..
qed

lemma ticks_one: "ticks t 1 level = [(t, level t)]"
  by (simp add: ticks_def)

lemma ticks_sorted: "sorted (map fst (ticks t n level))"
proof -
  have "map fst (ticks t n level) = map (\<lambda>k. t + k) [0..<n]"
    unfolding ticks_def map_map comp_def fst_conv ..
  moreover have "sorted (map (\<lambda>k. t + k) [0..<n])"
    by (rule sorted_wrt_map_mono [OF sorted_upt]) simp
  ultimately show ?thesis by simp
qed

lemma ticks_bounds: "\<forall>p \<in> set (ticks t n level). t \<le> fst p \<and> fst p < t + n"
  by (auto simp: ticks_def)

lemma samples_append: "samples (ps @ qs) = samples ps @ samples qs"
  by (simp add: samples_def)

lemma main_loop_iters_append:
  "main_loop_iters h (xs @ ys) s =
     (case main_loop_iters h xs s of Inl f \<Rightarrow> Inl f | Inr s' \<Rightarrow> main_loop_iters h ys s')"
  by (induction xs arbitrary: s) (auto split: sum.splits)

lemma run_one:
  "main_loop_iter h (clock t) (level t) s = Inr s' \<Longrightarrow>
   main_loop_iters h (samples (ticks t 1 level)) s = Inr s'"
  unfolding ticks_one samples_def by simp

lemma run_append:
  "main_loop_iters h (samples (ticks t n level)) s = Inr s' \<Longrightarrow>
   main_loop_iters h (samples (ticks t (n + m) level)) s
     = main_loop_iters h (samples (ticks (t + n) m level)) s'"
  by (simp add: ticks_append samples_append main_loop_iters_append)

lemma frame_iter:
  assumes h: "h < length (wio_inst s0)" and ap: "buffers_apart (wio_inst s0 ! h) N"
    and f: "tx_frame h s0 N s" and it: "main_loop_iter h t current_rx s = Inr s'"
  shows "tx_frame h s0 N s'"
proof -
  let ?i = "wio_inst s ! h" and ?j = "wio_inst s0 ! h"
  have fs: "length (wio_inst s) = length (wio_inst s0)" "tx_buffer ?i = tx_buffer ?j"
    "tx_pin ?i = tx_pin ?j" "tx_buffer_len ?i = N" "rx_buffer ?i = rx_buffer ?j"
    "rx_buffer_len ?i = rx_buffer_len ?j" "rx_buffer_cur ?i < rx_buffer_len ?i"
    and fm: "\<forall>k < unat N. memory s (tx_buffer ?j + k) = memory s0 (tx_buffer ?j + k)"
    using f unfolding tx_frame_def by blast+
  have len: "h < length (wio_inst s)" using h fs(1) by simp
  have nz: "rx_buffer_len ?i \<noteq> 0" using fs(7) by auto
  have ucur: "unat (rx_buffer_cur ?i) < unat (rx_buffer_len ?j)"
    using fs(7) unfolding fs(6) by (simp add: word_less_nat_alt)
  have tx: "tx_buffer_len (wio_inst s' ! h) = tx_buffer_len ?i"
    "tx_buffer (wio_inst s' ! h) = tx_buffer ?i" "tx_pin (wio_inst s' ! h) = tx_pin ?i"
    "length (wio_inst s') = length (wio_inst s)"
    using main_loop_iter_tx [OF len nz, of t current_rx] it by auto
  have mod: "(rx_buffer_cur ?i + 1) mod rx_buffer_len ?i < rx_buffer_len ?i"
    using nz by (simp add: word_mod_less_divisor word_greater_zero_iff)
  have rxm_all: "rx_buffer (wio_inst s' ! h) = rx_buffer ?i
      \<and> rx_buffer_len (wio_inst s' ! h) = rx_buffer_len ?i
      \<and> rx_buffer_cur (wio_inst s' ! h) < rx_buffer_len ?i
      \<and> (\<forall>a. a \<noteq> rx_buffer ?i + unat (rx_buffer_cur ?i) \<longrightarrow> memory s' a = memory s a)"
  proof (cases "(rx_buffer_cur ?i AND 1) XOR current_rx \<noteq> 0")
    case True
    show "rx_buffer (wio_inst s' ! h) = rx_buffer ?i
      \<and> rx_buffer_len (wio_inst s' ! h) = rx_buffer_len ?i
      \<and> rx_buffer_cur (wio_inst s' ! h) < rx_buffer_len ?i
      \<and> (\<forall>a. a \<noteq> rx_buffer ?i + unat (rx_buffer_cur ?i) \<longrightarrow> memory s' a = memory s a)"
      using main_loop_iter_edge [OF len True nz, of t] it mod by auto
  next
    case False
    then show "rx_buffer (wio_inst s' ! h) = rx_buffer ?i
      \<and> rx_buffer_len (wio_inst s' ! h) = rx_buffer_len ?i
      \<and> rx_buffer_cur (wio_inst s' ! h) < rx_buffer_len ?i
      \<and> (\<forall>a. a \<noteq> rx_buffer ?i + unat (rx_buffer_cur ?i) \<longrightarrow> memory s' a = memory s a)"
      using main_loop_iter_no_edge [OF len, of current_rx t] it fs(7) by auto
  qed
  then have rxm: "rx_buffer (wio_inst s' ! h) = rx_buffer ?i"
    "rx_buffer_len (wio_inst s' ! h) = rx_buffer_len ?i"
    "rx_buffer_cur (wio_inst s' ! h) < rx_buffer_len ?i"
    "\<forall>a. a \<noteq> rx_buffer ?i + unat (rx_buffer_cur ?i) \<longrightarrow> memory s' a = memory s a"
    by blast+
  have mem: "memory s' (tx_buffer ?j + k) = memory s0 (tx_buffer ?j + k)"
    if k: "k < unat N" for k
  proof -
    have "tx_buffer ?j + k \<noteq> rx_buffer ?j + unat (rx_buffer_cur ?i)"
      using ap k ucur unfolding buffers_apart_def by blast
    then have "memory s' (tx_buffer ?j + k) = memory s (tx_buffer ?j + k)"
      using rxm(4) unfolding fs(5) by blast
    also have "\<dots> = memory s0 (tx_buffer ?j + k)"
      using fm k by blast
    finally show ?thesis .
  qed
  show ?thesis
    unfolding tx_frame_def
  proof (intro conjI allI impI)
    show "length (wio_inst s') = length (wio_inst s0)" using tx(4) fs(1) by simp
    show "tx_buffer (wio_inst s' ! h) = tx_buffer ?j" using tx(2) fs(2) by simp
    show "tx_pin (wio_inst s' ! h) = tx_pin ?j" using tx(3) fs(3) by simp
    show "tx_buffer_len (wio_inst s' ! h) = N" using tx(1) fs(4) by simp
    show "rx_buffer (wio_inst s' ! h) = rx_buffer ?j" using rxm(1) fs(5) by simp
    show "rx_buffer_len (wio_inst s' ! h) = rx_buffer_len ?j" using rxm(2) fs(6) by simp
    show "rx_buffer_cur (wio_inst s' ! h) < rx_buffer_len (wio_inst s' ! h)"
      using rxm(3) unfolding rxm(2) .
    fix k assume "k < unat N"
    then show "memory s' (tx_buffer ?j + k) = memory s0 (tx_buffer ?j + k)"
      by (rule mem)
  qed
qed

lemma frame_iters:
  assumes "h < length (wio_inst s0)" and "buffers_apart (wio_inst s0 ! h) N"
  shows "tx_frame h s0 N s \<Longrightarrow> main_loop_iters h xs s = Inr s' \<Longrightarrow> tx_frame h s0 N s'"
proof (induction xs arbitrary: s)
  case Nil
  then show ?case by simp
next
  case (Cons x xs)
  obtain t rx where x: "x = (t, rx)" by (cases x)
  from Cons.prems(2) obtain s1 where s1: "main_loop_iter h t rx s = Inr s1"
    and rest: "main_loop_iters h xs s1 = Inr s'"
    by (auto simp: x split: sum.splits)
  from frame_iter [OF assms Cons.prems(1) s1] rest show ?case
    by (rule Cons.IH)
qed

lemma idle_iter:
  assumes h: "h < length (wio_inst s)" and rx: "rx_buffer_len (wio_inst s ! h) \<noteq> 0"
    and c: "tx_buffer_cur (wio_inst s ! h) = tx_buffer_len (wio_inst s ! h)"
  shows "\<exists>s'. main_loop_iter h now current_rx s = Inr s' \<and> tx_quiet h s s'"
proof -
  have "handle_transmissions (memory s) now (wio_inst s ! h) = (wio_inst s ! h, [])"
    using c by (simp add: handle_transmissions_def)
  then show ?thesis
    using main_loop_iter_tx [OF h rx, of now current_rx] by (auto simp: tx_quiet_def)
qed

lemma idle_run:
  assumes "h < length (wio_inst s)" and "rx_buffer_len (wio_inst s ! h) \<noteq> 0"
    and "tx_buffer_cur (wio_inst s ! h) = tx_buffer_len (wio_inst s ! h)"
  shows "\<exists>s'. main_loop_iters h xs s = Inr s' \<and> tx_quiet h s s'"
  using assms
proof (induction xs arbitrary: s)
  case Nil
  then show ?case by (simp add: tx_quiet_refl)
next
  case (Cons x xs)
  obtain s1 where s1: "main_loop_iter h (fst x) (snd x) s = Inr s1" and q1: "tx_quiet h s s1"
    using idle_iter [OF Cons.prems, of "fst x" "snd x"] by blast
  have pre: "h < length (wio_inst s1)" "rx_buffer_len (wio_inst s1 ! h) \<noteq> 0"
    "tx_buffer_cur (wio_inst s1 ! h) = tx_buffer_len (wio_inst s1 ! h)"
    using q1 Cons.prems by (simp_all add: tx_quiet_def)
  obtain s' where "main_loop_iters h xs s1 = Inr s'" "tx_quiet h s1 s'"
    using Cons.IH [OF pre] by blast
  then show ?case
    using s1 q1 by (cases x) (auto intro: tx_quiet_trans)
qed

lemma clock_add: "clock (a + unat d) = clock a + d"
  by (simp add: clock_def)

lemma of_nat_cursor:
  fixes N :: u32
  assumes "k \<le> unat N"
  shows "unat (of_nat k :: u32) = k"
proof -
  have "k < 2 ^ 32"
    using assms unsigned_less [of N, where 'a = nat] by simp
  then show ?thesis by (simp add: unat_of_nat)
qed

lemma of_nat_cursor_neq:
  fixes N :: u32
  assumes "k < unat N"
  shows "(of_nat k :: u32) \<noteq> N"
  using of_nat_cursor [of k N] assms by auto

lemma of_nat_cursor_pos:
  fixes N :: u32
  assumes "0 < k" and "k \<le> unat N"
  shows "(of_nat k :: u32) \<noteq> 0"
  using of_nat_cursor [OF assms(2)] assms(1) by auto

lemma tx_start_frame:
  assumes "h < length (wio_inst s0)"
    and "rx_buffer_cur (wio_inst s0 ! h) < rx_buffer_len (wio_inst s0 ! h)"
  shows "tx_frame h s0 N (wio_tx_start h N s0)"
  using assms by (simp add: tx_frame_def wio_tx_start_def)

lemma first_iter:
  assumes h: "h < length (wio_inst s0)" and rx: "rx_buffer_len (wio_inst s0 ! h) \<noteq> 0"
    and N: "N \<noteq> 0"
  shows "\<exists>s1. main_loop_iter h now current_rx (wio_tx_start h N s0) = Inr s1
     \<and> tx_buffer_cur (wio_inst s1 ! h) = 1
     \<and> tx_target_time (wio_inst s1 ! h) = now + memory s0 (tx_buffer (wio_inst s0 ! h))
     \<and> tx_await_wrap (wio_inst s1 ! h)
         = (if now \<le> now + memory s0 (tx_buffer (wio_inst s0 ! h)) then 0 else now)
     \<and> gpio_writes s1 = gpio_writes s0 @ [(tx_pin (wio_inst s0 ! h), 1)]"
proof -
  let ?s = "wio_tx_start h N s0"
  have st: "length (wio_inst ?s) = length (wio_inst s0)" "memory ?s = memory s0"
    "gpio_writes ?s = gpio_writes s0"
    "wio_inst ?s ! h = (wio_inst s0 ! h)\<lparr>tx_buffer_len := N, tx_buffer_cur := 0\<rparr>"
    using h by (simp_all add: wio_tx_start_def)
  have h': "h < length (wio_inst ?s)" and rx': "rx_buffer_len (wio_inst ?s ! h) \<noteq> 0"
    and c: "tx_buffer_cur (wio_inst ?s ! h) = 0" "tx_buffer_len (wio_inst ?s ! h) \<noteq> 0"
    using h rx N by (simp_all add: st)
  show ?thesis
    using main_loop_iter_tx [OF h' rx', of now current_rx]
      first_fires [OF c, of "memory ?s" now]
    by (auto simp: st)
qed

lemma wait_on_time:
  assumes h: "h < length (wio_inst s0)" and ap: "buffers_apart (wio_inst s0 ! h) N"
    and f: "fired_on_time h s0 N t0 k s" and k: "Suc k < unat N"
    and m: "Suc m \<le> unat (memory s0 (tx_buffer (wio_inst s0 ! h) + k))"
  shows "\<exists>s'. main_loop_iters h
            (samples (ticks (t0 + fire_time (memory s0) (tx_buffer (wio_inst s0 ! h)) k + 1) m level))
            s = Inr s'
     \<and> tx_quiet h s s' \<and> tx_frame h s0 N s'
     \<and> (Suc m = unat (memory s0 (tx_buffer (wio_inst s0 ! h) + k)) \<longrightarrow>
          tx_due (wio_inst s' ! h) 0)"
proof -
  let ?p = "tx_buffer (wio_inst s0 ! h)"
  let ?F = "fire_time (memory s0) ?p"
  let ?b = "memory s0 (?p + k)"
  let ?t = "t0 + ?F k + 1" and ?\<tau> = "t0 + ?F (Suc k)"
  let ?i = "wio_inst s ! h"
  have fr: "tx_frame h s0 N s" and cur: "tx_buffer_cur ?i = of_nat (Suc k)"
    and T: "tx_target_time ?i = clock ?\<tau>"
    and W: "tx_await_wrap ?i = (if clock (t0 + ?F k) \<le> clock ?\<tau> then 0 else clock (t0 + ?F k))"
    using f unfolding fired_on_time_def by blast+
  have len: "h < length (wio_inst s)" and rxc: "rx_buffer_cur ?i < rx_buffer_len ?i"
    and txl: "tx_buffer_len ?i = N"
    using fr h unfolding tx_frame_def by auto
  have rx: "rx_buffer_len ?i \<noteq> 0" using rxc by auto
  have \<tau>: "clock ?\<tau> = clock (t0 + ?F k) + ?b"
    using clock_add [of "t0 + ?F k" ?b] by (simp add: add.assoc)
  have c0: "tx_buffer_cur ?i \<noteq> 0"
    unfolding cur using k by (intro of_nat_cursor_pos [of _ N]) simp_all
  have cl: "tx_buffer_cur ?i \<noteq> tx_buffer_len ?i"
    unfolding cur txl using k by (rule of_nat_cursor_neq)
  have w: "tx_wait ?i (?\<tau> - ?t)"
  proof (rule post_fire_wait [OF c0 cl, of "clock (t0 + ?F k)" ?b])
    show "tx_target_time ?i = clock (t0 + ?F k) + ?b" using T \<tau> by simp
    show "tx_await_wrap ?i = (if clock (t0 + ?F k) \<le> clock (t0 + ?F k) + ?b
                             then 0 else clock (t0 + ?F k))"
      using W \<tau> by simp
    show "?\<tau> - ?t \<le> unat ?b" by simp
  qed
  have bnd: "\<forall>p \<in> set (ticks ?t m level). ?t \<le> fst p \<and> fst p < ?\<tau>"
    using ticks_bounds [of ?t m level] m by auto
  obtain s' where s': "main_loop_iters h (samples (ticks ?t m level)) s = Inr s'"
    and q: "tx_quiet h s s'"
    and w': "\<forall>t'. ?t \<le> t' \<and> (\<forall>p \<in> set (ticks ?t m level). fst p \<le> t') \<longrightarrow>
            tx_wait (wio_inst s' ! h) (?\<tau> - t')"
    using wait_run [OF len rx T w ticks_sorted bnd] by blast
  have fr': "tx_frame h s0 N s'"
    using frame_iters [OF h ap fr s'] .
  have "tx_due (wio_inst s' ! h) 0" if "Suc m = unat ?b"
  proof -
    have "?t \<le> ?\<tau> \<and> (\<forall>p \<in> set (ticks ?t m level). fst p \<le> ?\<tau>)"
      using bnd that by auto
    then have "tx_wait (wio_inst s' ! h) (?\<tau> - ?\<tau>)"
      using w' by blast
    then show ?thesis
      by (simp add: wait_zero_due)
  qed
  then show ?thesis
    using s' q fr' by blast
qed

lemma fire_on_time:
  assumes h: "h < length (wio_inst s0)" and ap: "buffers_apart (wio_inst s0 ! h) N"
    and f: "fired_on_time h s0 N t0 k s" and k: "Suc k < unat N"
    and q: "tx_quiet h s s'" and fr': "tx_frame h s0 N s'"
    and due: "tx_due (wio_inst s' ! h) 0"
  shows "\<exists>s''. main_loop_iter h
             (clock (t0 + fire_time (memory s0) (tx_buffer (wio_inst s0 ! h)) (Suc k)))
             current_rx s' = Inr s''
     \<and> fired_on_time h s0 N t0 (Suc k) s''"
proof -
  let ?p = "tx_buffer (wio_inst s0 ! h)"
  let ?F = "fire_time (memory s0) ?p"
  let ?\<tau> = "t0 + ?F (Suc k)"
  let ?i = "wio_inst s' ! h"
  have cur: "tx_buffer_cur ?i = of_nat (Suc k)" and T: "tx_target_time ?i = clock ?\<tau>"
    and G: "gpio_writes s' = gpio_writes s0
              @ map (\<lambda>j. (tx_pin (wio_inst s0 ! h), NOT (of_nat j) AND 1)) [0..<Suc k]"
    using f q unfolding fired_on_time_def tx_quiet_def by auto
  have len: "h < length (wio_inst s')" and rxc: "rx_buffer_cur ?i < rx_buffer_len ?i"
    and txb: "tx_buffer ?i = ?p" and pin: "tx_pin ?i = tx_pin (wio_inst s0 ! h)"
    and mem: "memory s' (?p + Suc k) = memory s0 (?p + Suc k)"
    using fr' h k unfolding tx_frame_def by auto
  have rx: "rx_buffer_len ?i \<noteq> 0" using rxc by auto
  have uc: "unat (tx_buffer_cur ?i) = Suc k"
    unfolding cur using k by (intro of_nat_cursor [of _ N]) simp
  obtain s'' where s'': "main_loop_iter h (clock (?\<tau> + 0)) current_rx s' = Inr s''"
    and g: "gpio_writes s'' = gpio_writes s' @ [(tx_pin ?i, NOT (tx_buffer_cur ?i) AND 1)]"
    and c: "tx_buffer_cur (wio_inst s'' ! h) = tx_buffer_cur ?i + 1"
    and T': "tx_target_time (wio_inst s'' ! h)
               = clock ?\<tau> + memory s' (tx_buffer ?i + unat (tx_buffer_cur ?i))"
    and W': "tx_await_wrap (wio_inst s'' ! h)
               = (if clock ?\<tau> \<le> clock ?\<tau> + memory s' (tx_buffer ?i + unat (tx_buffer_cur ?i))
                  then 0 else clock ?\<tau>)"
    using due_iter [OF len rx T due, of current_rx] by blast
  have it: "main_loop_iter h (clock ?\<tau>) current_rx s' = Inr s''"
    using s'' by simp
  have fr'': "tx_frame h s0 N s''"
    using frame_iter [OF h ap fr' it] .
  have next_\<tau>: "clock (t0 + ?F (Suc (Suc k))) = clock ?\<tau> + memory s0 (?p + Suc k)"
    using clock_add [of ?\<tau> "memory s0 (?p + Suc k)"] by (simp add: add.assoc)
  have "fired_on_time h s0 N t0 (Suc k) s''"
    unfolding fired_on_time_def
  proof (intro conjI)
    show "tx_frame h s0 N s''" by (rule fr'')
    show "tx_buffer_cur (wio_inst s'' ! h) = of_nat (Suc (Suc k))"
      using c cur by simp
    show "tx_target_time (wio_inst s'' ! h) = clock (t0 + ?F (Suc (Suc k)))"
      using T' unfolding txb uc mem next_\<tau> .
    show "tx_await_wrap (wio_inst s'' ! h)
           = (if clock ?\<tau> \<le> clock (t0 + ?F (Suc (Suc k))) then 0 else clock ?\<tau>)"
      using W' unfolding txb uc mem next_\<tau> .
    show "gpio_writes s'' = gpio_writes s0
            @ map (\<lambda>j. (tx_pin (wio_inst s0 ! h), NOT (of_nat j) AND 1)) [0..<Suc (Suc k)]"
      using g unfolding G pin cur by simp
  qed
  then show ?thesis using it by blast
qed

lemma fired_first:
  assumes h: "h < length (wio_inst s0)"
    and rxc: "rx_buffer_cur (wio_inst s0 ! h) < rx_buffer_len (wio_inst s0 ! h)"
    and ap: "buffers_apart (wio_inst s0 ! h) N" and N: "N \<noteq> 0"
  shows "\<exists>s1. main_loop_iters h (samples (ticks t0 1 level)) (wio_tx_start h N s0) = Inr s1
     \<and> fired_on_time h s0 N t0 0 s1"
proof -
  let ?p = "tx_buffer (wio_inst s0 ! h)"
  have rx: "rx_buffer_len (wio_inst s0 ! h) \<noteq> 0" using rxc by auto
  obtain s1 where s1: "main_loop_iter h (clock t0) (level t0) (wio_tx_start h N s0) = Inr s1"
    and c: "tx_buffer_cur (wio_inst s1 ! h) = 1"
    and T: "tx_target_time (wio_inst s1 ! h) = clock t0 + memory s0 ?p"
    and W: "tx_await_wrap (wio_inst s1 ! h)
         = (if clock t0 \<le> clock t0 + memory s0 ?p then 0 else clock t0)"
    and g: "gpio_writes s1 = gpio_writes s0 @ [(tx_pin (wio_inst s0 ! h), 1)]"
    using first_iter [OF h rx N, of "clock t0" "level t0"] by blast
  have fr: "tx_frame h s0 N s1"
    using frame_iter [OF h ap tx_start_frame [OF h rxc] s1] .
  have \<tau>: "clock (t0 + unat (memory s0 ?p)) = clock t0 + memory s0 ?p"
    by (rule clock_add)
  have "fired_on_time h s0 N t0 0 s1"
    unfolding fired_on_time_def using fr c T W g by (simp add: \<tau>)
  moreover have "main_loop_iters h (samples (ticks t0 1 level)) (wio_tx_start h N s0) = Inr s1"
    using s1 by (rule run_one)
  ultimately show ?thesis by blast
qed

lemma on_time_induct:
  assumes h: "h < length (wio_inst s0)"
    and rxc: "rx_buffer_cur (wio_inst s0 ! h) < rx_buffer_len (wio_inst s0 ! h)"
    and ap: "buffers_apart (wio_inst s0 ! h) N" and N: "N \<noteq> 0"
    and pos: "\<forall>k. Suc k < unat N \<longrightarrow> memory s0 (tx_buffer (wio_inst s0 ! h) + k) \<noteq> 0"
  shows "k < unat N \<Longrightarrow>
     \<exists>s'. main_loop_iters h
             (samples (ticks t0 (fire_time (memory s0) (tx_buffer (wio_inst s0 ! h)) k + 1) level))
             (wio_tx_start h N s0) = Inr s'
       \<and> fired_on_time h s0 N t0 k s'"
proof (induction k)
  case 0
  have "fire_time (memory s0) (tx_buffer (wio_inst s0 ! h)) 0 + 1 = 1" by simp
  then show ?case
    using fired_first [OF h rxc ap N, of t0 level] by (simp only:)
next
  case (Suc k)
  let ?p = "tx_buffer (wio_inst s0 ! h)"
  let ?F = "fire_time (memory s0) ?p"
  let ?b = "memory s0 (?p + k)"
  let ?start = "wio_tx_start h N s0"
  obtain s where s: "main_loop_iters h (samples (ticks t0 (?F k + 1) level)) ?start = Inr s"
    and f: "fired_on_time h s0 N t0 k s"
    using Suc by auto
  have "?b \<noteq> 0" using pos Suc.prems by blast
  then have b: "Suc (unat ?b - 1) = unat ?b"
    by (simp add: unat_gt_0)
  then have m: "Suc (unat ?b - 1) \<le> unat ?b" by simp
  obtain s' where s': "main_loop_iters h (samples (ticks (t0 + ?F k + 1) (unat ?b - 1) level)) s
                         = Inr s'"
    and q: "tx_quiet h s s'" and fr': "tx_frame h s0 N s'"
    and due: "tx_due (wio_inst s' ! h) 0"
    using wait_on_time [OF h ap f Suc.prems m, of level] b by blast
  have n1: "?F k + 1 + (unat ?b - 1) = ?F (Suc k)"
    using b by simp
  have e: "t0 + (?F k + 1) = t0 + ?F k + 1" by simp
  have "main_loop_iters h (samples (ticks t0 (?F k + 1 + (unat ?b - 1)) level)) ?start = Inr s'"
    unfolding run_append [OF s] e using s' .
  then have run1: "main_loop_iters h (samples (ticks t0 (?F (Suc k)) level)) ?start = Inr s'"
    unfolding n1 .
  obtain s'' where s'': "main_loop_iter h (clock (t0 + ?F (Suc k))) (level (t0 + ?F (Suc k))) s'
                           = Inr s''"
    and f'': "fired_on_time h s0 N t0 (Suc k) s''"
    using fire_on_time [OF h ap f Suc.prems q fr' due] by blast
  have "main_loop_iters h (samples (ticks t0 (?F (Suc k) + 1) level)) ?start = Inr s''"
    unfolding run_append [OF run1] using s'' by (rule run_one)
  then show ?case using f'' by blast
qed

lemma clock_unat_le: "unat (clock t) \<le> t"
  by (simp add: clock_def unat_of_nat)

lemma due_or_wait:
  assumes c: "tx_buffer_cur self \<noteq> 0" "tx_buffer_cur self \<noteq> tx_buffer_len self"
    and g: "tx_await_wrap self \<noteq> 0 \<longrightarrow> tx_target_time self < tx_await_wrap self"
  shows "(\<exists>\<tau> \<le> t. clock \<tau> = tx_target_time self \<and> tx_due self (t - \<tau>))
       \<or> (\<exists>\<tau> > t. clock \<tau> = tx_target_time self \<and> tx_wait self (\<tau> - t))"
proof -
  let ?T = "tx_target_time self" and ?W = "tx_await_wrap self"
  let ?now = "clock t"
  have bT: "unat ?T < 2 ^ 32" and bW: "unat ?W < 2 ^ 32" and bn: "unat ?now < 2 ^ 32"
    using unsigned_less [of ?T, where 'a = nat] unsigned_less [of ?W, where 'a = nat]
      unsigned_less [of ?now, where 'a = nat] by simp_all
  have nt: "unat ?now \<le> t" by (rule clock_unat_le)
  consider (due) "?T \<le> ?now" "?W = 0 \<or> ?now < ?W"
    | (before) "?now < ?T"
    | (guarded) "?W \<noteq> 0" "?W \<le> ?now"
    by fastforce
  then show ?thesis
  proof cases
    case due
    define l where "l = unat ?now - unat ?T"
    have lT: "unat ?T \<le> unat ?now" using due(1) by (simp add: word_le_nat_alt)
    have "of_nat l = ?now - ?T"
      unfolding l_def using lT by (simp add: of_nat_diff)
    moreover have lt: "l \<le> t" using nt by (simp add: l_def)
    ultimately have "clock (t - l) = ?T"
      by (simp add: clock_def of_nat_diff)
    moreover have "tx_due self (t - (t - l))"
    proof -
      have "t - (t - l) = l" using lt by simp
      moreover have "tx_due self l"
        using c due(2) lT bn by (auto simp: tx_due_def l_def word_less_nat_alt)
      ultimately show ?thesis by simp
    qed
    ultimately show ?thesis by (intro disjI1 exI [of _ "t - l"]) simp
  next
    case before
    define r where "r = unat ?T - unat ?now"
    have lt: "unat ?now < unat ?T" using before by (simp add: word_less_nat_alt)
    have "of_nat r = ?T - ?now"
      unfolding r_def using lt by (simp add: of_nat_diff)
    then have "clock (t + r) = ?T"
      by (simp add: clock_def)
    moreover have "tx_wait self (t + r - t)"
      using c g lt bW by (auto simp: tx_wait_def r_def)
    moreover have "t < t + r" using lt by (simp add: r_def)
    ultimately show ?thesis by (intro disjI2 exI [of _ "t + r"]) simp
  next
    case guarded
    then have tw: "?T < ?W" using g by simp
    define r where "r = unat ?T + 2 ^ 32 - unat ?now"
    have "(of_nat r :: u32) = of_nat (unat ?T + 2 ^ 32) - of_nat (unat ?now)"
      unfolding r_def using bn by (intro of_nat_diff) simp
    then have "of_nat r = ?T - ?now" by simp
    then have "clock (t + r) = ?T"
      by (simp add: clock_def)
    moreover have "tx_wait self (t + r - t)"
      using c guarded tw bn by (auto simp: tx_wait_def r_def word_le_nat_alt)
    moreover have "t < t + r" using bn by (simp add: r_def)
    ultimately show ?thesis by (intro disjI2 exI [of _ "t + r"]) simp
  qed
qed

lemma overflow_guard:
  fixes T d :: u32
  shows "(if T \<le> T + d then 0 else T) \<noteq> 0 \<longrightarrow> T + d < (if T \<le> T + d then 0 else T)"
  by auto

lemma between_first:
  assumes h: "h < length (wio_inst s0)"
    and rxc: "rx_buffer_cur (wio_inst s0 ! h) < rx_buffer_len (wio_inst s0 ! h)"
    and ap: "buffers_apart (wio_inst s0 ! h) N" and N: "N \<noteq> 0"
  shows "\<exists>s1. main_loop_iters h (samples (ticks t0 1 level)) (wio_tx_start h N s0) = Inr s1
     \<and> tx_between h s0 N 1 s1 \<and> tx_buffer_cur (wio_inst s1 ! h) = 1
     \<and> gpio_writes s1 = gpio_writes s0 @ [(tx_pin (wio_inst s0 ! h), 1)]"
proof -
  let ?p = "tx_buffer (wio_inst s0 ! h)"
  have rx: "rx_buffer_len (wio_inst s0 ! h) \<noteq> 0" using rxc by auto
  obtain s1 where s1: "main_loop_iter h (clock t0) (level t0) (wio_tx_start h N s0) = Inr s1"
    and c: "tx_buffer_cur (wio_inst s1 ! h) = 1"
    and T: "tx_target_time (wio_inst s1 ! h) = clock t0 + memory s0 ?p"
    and W: "tx_await_wrap (wio_inst s1 ! h)
         = (if clock t0 \<le> clock t0 + memory s0 ?p then 0 else clock t0)"
    and g: "gpio_writes s1 = gpio_writes s0 @ [(tx_pin (wio_inst s0 ! h), 1)]"
    using first_iter [OF h rx N, of "clock t0" "level t0"] by blast
  have fr: "tx_frame h s0 N s1"
    using frame_iter [OF h ap tx_start_frame [OF h rxc] s1] .
  have "1 \<le> unat N" using N by (simp add: Suc_le_eq unat_gt_0)
  then have "tx_between h s0 N 1 s1"
    unfolding tx_between_def T W using fr c overflow_guard [of "clock t0" "memory s0 ?p"]
    by simp
  then show ?thesis
    using run_one [of h t0 level, OF s1] c g by blast
qed

lemma due_between:
  assumes h: "h < length (wio_inst s0)" and ap: "buffers_apart (wio_inst s0 ! h) N"
    and b: "tx_between h s0 N c s" and c: "c < unat N"
    and T: "tx_target_time (wio_inst s ! h) = clock \<tau>"
    and due: "tx_due (wio_inst s ! h) l"
  shows "\<exists>s'. main_loop_iter h (clock (\<tau> + l)) current_rx s = Inr s'
     \<and> tx_between h s0 N (Suc c) s'"
proof -
  let ?i = "wio_inst s ! h"
  have fr: "tx_frame h s0 N s" and cur: "tx_buffer_cur ?i = of_nat c"
    using b unfolding tx_between_def by blast+
  have len: "h < length (wio_inst s)" and rxc: "rx_buffer_cur ?i < rx_buffer_len ?i"
    using fr h unfolding tx_frame_def by auto
  have rx: "rx_buffer_len ?i \<noteq> 0" using rxc by auto
  let ?d = "memory s (tx_buffer ?i + unat (tx_buffer_cur ?i))"
  obtain s' where s': "main_loop_iter h (clock (\<tau> + l)) current_rx s = Inr s'"
    and c': "tx_buffer_cur (wio_inst s' ! h) = tx_buffer_cur ?i + 1"
    and T': "tx_target_time (wio_inst s' ! h) = clock \<tau> + ?d"
    and W': "tx_await_wrap (wio_inst s' ! h) = (if clock \<tau> \<le> clock \<tau> + ?d then 0 else clock \<tau>)"
    using due_iter [OF len rx T due, of current_rx] by blast
  have fr': "tx_frame h s0 N s'"
    using frame_iter [OF h ap fr s'] .
  have "tx_between h s0 N (Suc c) s'"
    unfolding tx_between_def T' W' using fr' c' cur c overflow_guard [of "clock \<tau>" ?d]
    by simp
  then show ?thesis using s' by blast
qed

lemma progress:
  assumes h: "h < length (wio_inst s0)" and ap: "buffers_apart (wio_inst s0 ! h) N"
    and b: "tx_between h s0 N c s" and c: "c < unat N"
  shows "\<exists>m s'. main_loop_iters h (samples (ticks t m level)) s = Inr s'
     \<and> tx_between h s0 N (Suc c) s'"
proof -
  let ?i = "wio_inst s ! h"
  have fr: "tx_frame h s0 N s" and cur: "tx_buffer_cur ?i = of_nat c" and c0: "0 < c"
    and g: "tx_await_wrap ?i \<noteq> 0 \<longrightarrow> tx_target_time ?i < tx_await_wrap ?i"
    using b unfolding tx_between_def by blast+
  have len: "h < length (wio_inst s)" and rxc: "rx_buffer_cur ?i < rx_buffer_len ?i"
    and txl: "tx_buffer_len ?i = N"
    using fr h unfolding tx_frame_def by auto
  have rx: "rx_buffer_len ?i \<noteq> 0" using rxc by auto
  have n0: "tx_buffer_cur ?i \<noteq> 0"
    unfolding cur using c0 c by (intro of_nat_cursor_pos [of _ N]) simp_all
  have nl: "tx_buffer_cur ?i \<noteq> tx_buffer_len ?i"
    unfolding cur txl using c by (rule of_nat_cursor_neq)
  from due_or_wait [OF n0 nl g, of t] show ?thesis
  proof (elim disjE exE conjE)
    fix \<tau> assume \<tau>: "\<tau> \<le> t" "clock \<tau> = tx_target_time ?i" "tx_due ?i (t - \<tau>)"
    have e: "\<tau> + (t - \<tau>) = t" using \<tau>(1) by simp
    obtain s' where "main_loop_iter h (clock t) (level t) s = Inr s'"
      and b': "tx_between h s0 N (Suc c) s'"
      using due_between [OF h ap b c \<tau>(2) [symmetric] \<tau>(3), of "level t"] unfolding e by blast
    then have "main_loop_iters h (samples (ticks t 1 level)) s = Inr s'"
      by (intro run_one)
    then show ?thesis using b' by blast
  next
    fix \<tau> assume \<tau>: "t < \<tau>" "clock \<tau> = tx_target_time ?i" "tx_wait ?i (\<tau> - t)"
    have bnd: "\<forall>p \<in> set (ticks t (\<tau> - t) level). t \<le> fst p \<and> fst p < \<tau>"
      using ticks_bounds [of t "\<tau> - t" level] \<tau>(1) by auto
    obtain s1 where s1: "main_loop_iters h (samples (ticks t (\<tau> - t) level)) s = Inr s1"
      and q: "tx_quiet h s s1"
      and w: "\<forall>t'. t \<le> t' \<and> (\<forall>p \<in> set (ticks t (\<tau> - t) level). fst p \<le> t') \<longrightarrow>
            tx_wait (wio_inst s1 ! h) (\<tau> - t')"
      using wait_run [OF len rx \<tau>(2) [symmetric] \<tau>(3) ticks_sorted bnd] by blast
    have "t \<le> \<tau> \<and> (\<forall>p \<in> set (ticks t (\<tau> - t) level). fst p \<le> \<tau>)"
      using bnd \<tau>(1) by auto
    then have "tx_wait (wio_inst s1 ! h) (\<tau> - \<tau>)" using w by blast
    then have due: "tx_due (wio_inst s1 ! h) 0" by (simp add: wait_zero_due)
    have fr1: "tx_frame h s0 N s1" using frame_iters [OF h ap fr s1] .
    have b1: "tx_between h s0 N c s1"
      using b q fr1 unfolding tx_between_def tx_quiet_def by auto
    have T1: "tx_target_time (wio_inst s1 ! h) = clock \<tau>"
      using q \<tau>(2) by (simp add: tx_quiet_def)
    obtain s' where s': "main_loop_iter h (clock (\<tau> + 0)) (level \<tau>) s1 = Inr s'"
      and b': "tx_between h s0 N (Suc c) s'"
      using due_between [OF h ap b1 c T1 due, of "level \<tau>"] by blast
    have e: "t + (\<tau> - t) = \<tau>" using \<tau>(1) by simp
    have "main_loop_iters h (samples (ticks t (\<tau> - t + 1) level)) s = Inr s'"
      unfolding run_append [OF s1] e using s' by (intro run_one) simp
    then show ?thesis using b' by blast
  qed
qed

lemma eventually_done:
  assumes h: "h < length (wio_inst s0)" and ap: "buffers_apart (wio_inst s0 ! h) N"
  shows "tx_between h s0 N c s \<Longrightarrow>
     \<exists>m s'. main_loop_iters h (samples (ticks t m level)) s = Inr s'
       \<and> tx_frame h s0 N s' \<and> tx_buffer_cur (wio_inst s' ! h) = N"
proof (induction "unat N - c" arbitrary: c s t)
  case 0
  then have "c = unat N" by (simp add: tx_between_def)
  then have "main_loop_iters h (samples (ticks t 0 level)) s = Inr s
     \<and> tx_frame h s0 N s \<and> tx_buffer_cur (wio_inst s ! h) = N"
    using "0.prems" by (simp add: tx_between_def ticks_def samples_def)
  then show ?case by blast
next
  case (Suc d)
  then have c: "c < unat N" by simp
  obtain m1 s1 where s1: "main_loop_iters h (samples (ticks t m1 level)) s = Inr s1"
    and b1: "tx_between h s0 N (Suc c) s1"
    using progress [OF h ap Suc.prems c, of t level] by blast
  have "d = unat N - Suc c" using Suc.hyps(2) by simp
  from Suc.hyps(1) [OF this b1, of "t + m1"]
  obtain m2 s2 where s2: "main_loop_iters h (samples (ticks (t + m1) m2 level)) s1 = Inr s2"
    and f2: "tx_frame h s0 N s2" "tx_buffer_cur (wio_inst s2 ! h) = N"
    by blast
  have "main_loop_iters h (samples (ticks t (m1 + m2) level)) s = Inr s2"
    unfolding run_append [OF s1] using s2 .
  then show ?case using f2 by blast
qed

lemma completion_eventually:
  assumes h: "h < length (wio_inst s0)"
    and rxc: "rx_buffer_cur (wio_inst s0 ! h) < rx_buffer_len (wio_inst s0 ! h)"
    and ap: "buffers_apart (wio_inst s0 ! h) N" and N: "N \<noteq> 0"
  shows "\<exists>n0. \<forall>n \<ge> n0. \<exists>s'. main_loop_iters h (samples (ticks t0 n level))
                                   (wio_tx_start h N s0) = Inr s'
            \<and> tx_buffer_cur (wio_inst s' ! h) = N"
proof -
  let ?start = "wio_tx_start h N s0"
  obtain s1 where s1: "main_loop_iters h (samples (ticks t0 1 level)) ?start = Inr s1"
    and b1: "tx_between h s0 N 1 s1"
    using between_first [OF h rxc ap N, of t0 level] by blast
  obtain m s2 where s2: "main_loop_iters h (samples (ticks (t0 + 1) m level)) s1 = Inr s2"
    and f2: "tx_frame h s0 N s2" and c2: "tx_buffer_cur (wio_inst s2 ! h) = N"
    using eventually_done [OF h ap b1, of "t0 + 1" level] by blast
  have run2: "main_loop_iters h (samples (ticks t0 (1 + m) level)) ?start = Inr s2"
    unfolding run_append [OF s1] using s2 .
  have len2: "h < length (wio_inst s2)" and rx2: "rx_buffer_len (wio_inst s2 ! h) \<noteq> 0"
    and idle: "tx_buffer_cur (wio_inst s2 ! h) = tx_buffer_len (wio_inst s2 ! h)"
    using f2 h c2 unfolding tx_frame_def by auto
  have "\<exists>s'. main_loop_iters h (samples (ticks t0 n level)) ?start = Inr s'
            \<and> tx_buffer_cur (wio_inst s' ! h) = N" if n: "1 + m \<le> n" for n
  proof -
    obtain s' where s': "main_loop_iters h (samples (ticks (t0 + (1 + m)) (n - (1 + m)) level)) s2
                           = Inr s'"
      and q: "tx_quiet h s2 s'"
      using idle_run [OF len2 rx2 idle] by blast
    have "main_loop_iters h (samples (ticks t0 (1 + m + (n - (1 + m))) level)) ?start = Inr s'"
      unfolding run_append [OF run2] using s' .
    moreover have "1 + m + (n - (1 + m)) = n" using n by simp
    ultimately have "main_loop_iters h (samples (ticks t0 n level)) ?start = Inr s'"
      by simp
    then show ?thesis using q c2 by (auto simp: tx_quiet_def)
  qed
  then show ?thesis by blast
qed

lemma completion_on_time:
  assumes h: "h < length (wio_inst s0)"
    and rxc: "rx_buffer_cur (wio_inst s0 ! h) < rx_buffer_len (wio_inst s0 ! h)"
    and ap: "buffers_apart (wio_inst s0 ! h) N" and N: "N \<noteq> 0"
    and pos: "\<forall>k. Suc k < unat N \<longrightarrow> memory s0 (tx_buffer (wio_inst s0 ! h) + k) \<noteq> 0"
    and k: "k < unat N"
    and lo: "fire_time (memory s0) (tx_buffer (wio_inst s0 ! h)) k < n"
    and hi: "Suc k < unat N \<longrightarrow> n \<le> fire_time (memory s0) (tx_buffer (wio_inst s0 ! h)) (Suc k)"
  shows "\<exists>s'. main_loop_iters h (samples (ticks t0 n level)) (wio_tx_start h N s0) = Inr s'
     \<and> tx_buffer_cur (wio_inst s' ! h) = of_nat (Suc k)
     \<and> gpio_writes s' = gpio_writes s0
          @ map (\<lambda>j. (tx_pin (wio_inst s0 ! h), NOT (of_nat j) AND 1)) [0..<Suc k]"
proof -
  let ?p = "tx_buffer (wio_inst s0 ! h)"
  let ?F = "fire_time (memory s0) ?p"
  let ?start = "wio_tx_start h N s0"
  obtain s where s: "main_loop_iters h (samples (ticks t0 (?F k + 1) level)) ?start = Inr s"
    and f: "fired_on_time h s0 N t0 k s"
    using on_time_induct [OF h rxc ap N pos k, of t0 level] by blast
  have fr: "tx_frame h s0 N s" and cur: "tx_buffer_cur (wio_inst s ! h) = of_nat (Suc k)"
    and G: "gpio_writes s = gpio_writes s0
              @ map (\<lambda>j. (tx_pin (wio_inst s0 ! h), NOT (of_nat j) AND 1)) [0..<Suc k]"
    using f unfolding fired_on_time_def by blast+
  define m where "m = n - (?F k + 1)"
  have n: "?F k + 1 + m = n" using lo by (simp add: m_def)
  have "\<exists>s'. main_loop_iters h (samples (ticks (t0 + (?F k + 1)) m level)) s = Inr s'
          \<and> tx_quiet h s s'"
  proof (cases "Suc k < unat N")
    case True
    then have "n \<le> ?F k + unat (memory s0 (?p + k))" using hi by simp
    then have "Suc m \<le> unat (memory s0 (?p + k))" using lo by (simp add: m_def)
    from wait_on_time [OF h ap f True this, of level] show ?thesis
      by (auto simp: add.assoc)
  next
    case False
    then have "Suc k = unat N" using k by simp
    then have "(of_nat (Suc k) :: u32) = N" by simp
    then have idle: "tx_buffer_cur (wio_inst s ! h) = tx_buffer_len (wio_inst s ! h)"
      using cur fr unfolding tx_frame_def by auto
    have len: "h < length (wio_inst s)" and rx: "rx_buffer_len (wio_inst s ! h) \<noteq> 0"
      using fr h unfolding tx_frame_def by auto
    from idle_run [OF len rx idle] show ?thesis by blast
  qed
  then obtain s' where s': "main_loop_iters h (samples (ticks (t0 + (?F k + 1)) m level)) s = Inr s'"
    and q: "tx_quiet h s s'"
    by blast
  have "main_loop_iters h (samples (ticks t0 (?F k + 1 + m) level)) ?start = Inr s'"
    unfolding run_append [OF s] using s' .
  then have "main_loop_iters h (samples (ticks t0 n level)) ?start = Inr s'"
    unfolding n .
  then show ?thesis
    using q cur G by (auto simp: tx_quiet_def)
qed

text \<open>
  The loop polled once per tick. An instance whose receive cursor is inside its buffer and whose receive
  buffer is apart from the \<open>N\<close> words to transmit, \<open>N\<close> not 0, is started with
  \<^verbatim>\<open>wio_tx_start\<close> and the loop then runs once per tick from any true time \<open>t0\<close>,
  whatever the receive pin reads. The first iteration fires the first transition and
  writes 1 to the transmit pin. For every buffer the cursor is \<open>N\<close> after every
  sufficiently long run. If the entries 0 to \<open>N - 2\<close> are all at least 1, transition
  \<open>k\<close> fires in the iteration that samples the timer \<open>fire_time k\<close> ticks after
  the first one, the sum of the entries 0 to \<open>k - 1\<close>: after \<open>n\<close> iterations with
  \<open>fire_time k < n \<le> fire_time (k + 1)\<close> the cursor is \<open>k + 1\<close> and the pin has been
  written the levels 1, 0, 1, and so on, \<open>k + 1\<close> of them; and for \<open>k = N - 1\<close> the
  cursor is \<open>N\<close> after every \<open>n > fire_time (N - 1)\<close>, so the last entry is not
  waited for.
\<close>

theorem per_tick_completion:
  assumes h: "self_id < length (wio_inst s0)"
    and rxc: "rx_buffer_cur (wio_inst s0 ! self_id) < rx_buffer_len (wio_inst s0 ! self_id)"
    and ap: "buffers_apart (wio_inst s0 ! self_id) N"
    and N: "N \<noteq> 0"
  shows "(\<exists>s1. main_loop_iters self_id (samples (ticks t0 1 level))
                 (wio_tx_start self_id N s0) = Inr s1
            \<and> tx_buffer_cur (wio_inst s1 ! self_id) = 1
            \<and> gpio_writes s1 = gpio_writes s0 @ [(tx_pin (wio_inst s0 ! self_id), 1)])
     \<and> (\<exists>n0. \<forall>n \<ge> n0. \<exists>s'. main_loop_iters self_id (samples (ticks t0 n level))
                                   (wio_tx_start self_id N s0) = Inr s'
            \<and> tx_buffer_cur (wio_inst s' ! self_id) = N)
     \<and> ((\<forall>k. Suc k < unat N \<longrightarrow> memory s0 (tx_buffer (wio_inst s0 ! self_id) + k) \<noteq> 0) \<longrightarrow>
         (\<forall>k n. k < unat N
             \<and> fire_time (memory s0) (tx_buffer (wio_inst s0 ! self_id)) k < n
             \<and> (Suc k < unat N \<longrightarrow>
                  n \<le> fire_time (memory s0) (tx_buffer (wio_inst s0 ! self_id)) (Suc k)) \<longrightarrow>
            (\<exists>s'. main_loop_iters self_id (samples (ticks t0 n level))
                     (wio_tx_start self_id N s0) = Inr s'
               \<and> tx_buffer_cur (wio_inst s' ! self_id) = of_nat (Suc k)
               \<and> gpio_writes s' = gpio_writes s0
                    @ map (\<lambda>j. (tx_pin (wio_inst s0 ! self_id), NOT (of_nat j) AND 1))
                        [0..<Suc k])))"
proof (intro conjI impI allI)
  show "\<exists>s1. main_loop_iters self_id (samples (ticks t0 1 level))
                 (wio_tx_start self_id N s0) = Inr s1
            \<and> tx_buffer_cur (wio_inst s1 ! self_id) = 1
            \<and> gpio_writes s1 = gpio_writes s0 @ [(tx_pin (wio_inst s0 ! self_id), 1)]"
    using between_first [OF h rxc ap N, of t0 level] by blast
  show "\<exists>n0. \<forall>n \<ge> n0. \<exists>s'. main_loop_iters self_id (samples (ticks t0 n level))
                                   (wio_tx_start self_id N s0) = Inr s'
            \<and> tx_buffer_cur (wio_inst s' ! self_id) = N"
    by (rule completion_eventually [OF h rxc ap N])
next
  fix k n
  assume pos: "\<forall>k. Suc k < unat N \<longrightarrow> memory s0 (tx_buffer (wio_inst s0 ! self_id) + k) \<noteq> 0"
    and kn: "k < unat N
             \<and> fire_time (memory s0) (tx_buffer (wio_inst s0 ! self_id)) k < n
             \<and> (Suc k < unat N \<longrightarrow>
                  n \<le> fire_time (memory s0) (tx_buffer (wio_inst s0 ! self_id)) (Suc k))"
  show "\<exists>s'. main_loop_iters self_id (samples (ticks t0 n level))
                     (wio_tx_start self_id N s0) = Inr s'
               \<and> tx_buffer_cur (wio_inst s' ! self_id) = of_nat (Suc k)
               \<and> gpio_writes s' = gpio_writes s0
                    @ map (\<lambda>j. (tx_pin (wio_inst s0 ! self_id), NOT (of_nat j) AND 1))
                        [0..<Suc k]"
    using completion_on_time [OF h rxc ap N pos, of k n t0 level] kn by blast
qed

lemma new_base_facts:
  "length (wio_inst (snd (wio_new 0 100 2 200 16 (wio_init m)))) = 8"
  "rx_buffer_cur (wio_inst (snd (wio_new 0 100 2 200 16 (wio_init m))) ! 0) = 0"
  "rx_buffer_len (wio_inst (snd (wio_new 0 100 2 200 16 (wio_init m))) ! 0) = 16"
  "rx_buffer (wio_inst (snd (wio_new 0 100 2 200 16 (wio_init m))) ! 0) = 200"
  "tx_buffer (wio_inst (snd (wio_new 0 100 2 200 16 (wio_init m))) ! 0) = 100"
  "tx_pin (wio_inst (snd (wio_new 0 100 2 200 16 (wio_init m))) ! 0) = 0"
  "memory (snd (wio_new 0 100 2 200 16 (wio_init m))) = m"
  "gpio_writes (snd (wio_new 0 100 2 200 16 (wio_init m))) = []"
  by (simp_all add: wio_new_def Let_def wio_init_def WIO_INST_COUNT_def gpio_open_def)

lemma new_base_apart:
  fixes N :: u32
  assumes "unat N \<le> 100"
  shows "buffers_apart (wio_inst (snd (wio_new 0 100 2 200 16 (wio_init m))) ! 0) N"
  unfolding buffers_apart_def new_base_facts using assms by auto

text \<open>
  An entry 0 at the wrap of the counter. In \<open>zero_base\<close> both entries of a
  transmission of length 2 are 0, so the entries before the last one sum to 0. Started
  when the counter reads \<open>2 ^ 32 - 1\<close>, the first iteration fires the first
  transition and sets the deadline to that same value without a wrap guard; the next
  iteration samples 0, below the deadline, and after \<open>2 ^ 32\<close> iterations, one per
  tick, the cursor is still 1.
\<close>

theorem zero_entry_waits_a_period:
  "fire_time (memory zero_base) (tx_buffer (wio_inst zero_base ! 0)) 1 = 0
   \<and> map_sum id (wio_tx_cursor 0)
        (main_loop_iters 0 (samples (ticks 4294967295 1 pin_low)) (wio_tx_start 0 2 zero_base))
      = Inr 1
   \<and> map_sum id (wio_tx_cursor 0)
        (main_loop_iters 0 (samples (ticks 4294967295 4294967296 pin_low))
           (wio_tx_start 0 2 zero_base))
      = Inr 1"
proof -
  let ?start = "wio_tx_start 0 2 zero_base"
  have h: "0 < length (wio_inst zero_base)"
    and rxc: "rx_buffer_cur (wio_inst zero_base ! 0) < rx_buffer_len (wio_inst zero_base ! 0)"
    and ap: "buffers_apart (wio_inst zero_base ! 0) 2"
    and N: "(2 :: u32) \<noteq> 0"
    unfolding zero_base_def using new_base_apart [of 2 zero_memory]
    by (simp_all add: new_base_facts)
  have F: "fire_time (memory zero_base) (tx_buffer (wio_inst zero_base ! 0)) 1 = 0"
    unfolding zero_base_def new_base_facts by (simp add: zero_memory_def)
  obtain s1 where s1: "main_loop_iters 0 (samples (ticks 4294967295 1 pin_low)) ?start = Inr s1"
    and f: "fired_on_time 0 zero_base 2 4294967295 0 s1"
    using fired_first [OF h rxc ap N, of 4294967295 pin_low] by blast
  let ?i = "wio_inst s1 ! 0"
  have fr: "tx_frame 0 zero_base 2 s1" and c1: "tx_buffer_cur ?i = 1"
    and T1: "tx_target_time ?i = clock 4294967295" and W1: "tx_await_wrap ?i = 0"
    using f F unfolding fired_on_time_def by auto
  have len: "0 < length (wio_inst s1)" and rx: "rx_buffer_len ?i \<noteq> 0"
    and txl: "tx_buffer_len ?i = 2"
    using fr h unfolding tx_frame_def by auto
  have T: "tx_target_time ?i = clock 8589934591"
    using T1 by (simp add: clock_def)
  have uT: "unat (tx_target_time ?i) = 4294967295"
    using T1 by (simp add: clock_def)
  have w: "tx_wait ?i (8589934591 - 4294967296)"
    unfolding tx_wait_def using c1 W1 txl uT by simp
  have bnd: "\<forall>p \<in> set (ticks 4294967296 4294967295 pin_low).
               4294967296 \<le> fst p \<and> fst p < 8589934591"
    using ticks_bounds [of 4294967296 4294967295 pin_low] by simp
  obtain s2 where s2: "main_loop_iters 0 (samples (ticks 4294967296 4294967295 pin_low)) s1
                         = Inr s2"
    and q: "tx_quiet 0 s1 s2"
    using wait_run [OF len rx T w ticks_sorted bnd] by blast
  have e: "(4294967295 :: nat) + 1 = 4294967296" "(1 :: nat) + 4294967295 = 4294967296"
    by simp_all
  have "main_loop_iters 0 (samples (ticks 4294967295 (1 + 4294967295) pin_low)) ?start
          = main_loop_iters 0 (samples (ticks (4294967295 + 1) 4294967295 pin_low)) s1"
    by (rule run_append [OF s1])
  then have run2: "main_loop_iters 0 (samples (ticks 4294967295 4294967296 pin_low)) ?start
                     = Inr s2"
    unfolding e s2 .
  have "wio_tx_cursor 0 s1 = 1" "wio_tx_cursor 0 s2 = 1"
    using c1 q by (simp_all add: wio_tx_cursor_def tx_quiet_def)
  then show ?thesis
    unfolding s1 run2 using F by simp
qed

lemma fire_time_unfold:
  "fire_time m p 2 = unat (m p) + unat (m (p + 1))"
  "fire_time m p 3 = unat (m p) + unat (m (p + 1)) + unat (m (p + 2))"
  by (simp_all add: numeral_2_eq_2 numeral_3_eq_3)

lemma example_levels:
  "map (\<lambda>j. (0 :: gpio, NOT (of_nat j) AND (1 :: u32))) [0..<4] = [(0, 1), (0, 0), (0, 1), (0, 0)]"
  by code_simp

text \<open>
  The transmission of 1000, 2000, 1000, 2000 started \<open>1000\<close> ticks before the counter
  wraps: the cursor is 1 after the first iteration, 3 after 4000 iterations and 4 after
  4001, when the pin has been written 1, 0, 1, 0.
\<close>

theorem per_tick_completion_example:
  "0 < length (wio_inst example_base)
   \<and> rx_buffer_cur (wio_inst example_base ! 0) < rx_buffer_len (wio_inst example_base ! 0)
   \<and> buffers_apart (wio_inst example_base ! 0) 4
   \<and> (4 :: u32) \<noteq> 0
   \<and> memory example_base 100 \<noteq> 0 \<and> memory example_base 101 \<noteq> 0
   \<and> memory example_base 102 \<noteq> 0
   \<and> fire_time (memory example_base) (tx_buffer (wio_inst example_base ! 0)) 2 = 3000
   \<and> fire_time (memory example_base) (tx_buffer (wio_inst example_base ! 0)) 3 = 4000
   \<and> map_sum id (wio_tx_cursor 0)
        (main_loop_iters 0 (samples (ticks 4294966296 1 pin_low)) (wio_tx_start 0 4 example_base))
      = Inr 1
   \<and> map_sum id (wio_tx_cursor 0)
        (main_loop_iters 0 (samples (ticks 4294966296 4000 pin_low))
           (wio_tx_start 0 4 example_base))
      = Inr 3
   \<and> map_sum id (wio_tx_cursor 0)
        (main_loop_iters 0 (samples (ticks 4294966296 4001 pin_low))
           (wio_tx_start 0 4 example_base))
      = Inr 4
   \<and> map_sum id gpio_writes
        (main_loop_iters 0 (samples (ticks 4294966296 4001 pin_low))
           (wio_tx_start 0 4 example_base))
      = Inr [(0, 1), (0, 0), (0, 1), (0, 0)]"
proof -
  let ?start = "wio_tx_start 0 4 example_base"
  have h: "0 < length (wio_inst example_base)"
    and rxc: "rx_buffer_cur (wio_inst example_base ! 0) < rx_buffer_len (wio_inst example_base ! 0)"
    and ap: "buffers_apart (wio_inst example_base ! 0) 4"
    and N: "(4 :: u32) \<noteq> 0"
    unfolding example_base_def using new_base_apart [of 4 example_memory]
    by (simp_all add: new_base_facts)
  have tb: "tx_buffer (wio_inst example_base ! 0) = 100" "memory example_base = example_memory"
    "gpio_writes example_base = []" "tx_pin (wio_inst example_base ! 0) = 0"
    unfolding example_base_def by (simp_all add: new_base_facts)
  have m: "example_memory 100 = 1000" "example_memory 101 = 2000" "example_memory 102 = 1000"
    by (simp_all add: example_memory_def)
  have F2: "fire_time example_memory 100 2 = 3000"
    and F3: "fire_time example_memory 100 3 = 4000"
    unfolding fire_time_unfold by (simp_all add: m)
  have pos: "\<forall>k. Suc k < unat (4 :: u32) \<longrightarrow>
               memory example_base (tx_buffer (wio_inst example_base ! 0) + k) \<noteq> 0"
  proof (intro allI impI)
    fix k
    assume "Suc k < unat (4 :: u32)"
    then have "k = 0 \<or> k = 1 \<or> k = 2"
      by (simp, arith)
    then show "memory example_base (tx_buffer (wio_inst example_base ! 0) + k) \<noteq> 0"
      unfolding tb using m by auto
  qed
  note t = per_tick_completion [OF h rxc ap N, of 4294966296 pin_low]
  note timing = mp [OF t [THEN conjunct2, THEN conjunct2] pos, rule_format]
  obtain s1 where s1: "main_loop_iters 0 (samples (ticks 4294966296 1 pin_low)) ?start = Inr s1"
    and c1: "tx_buffer_cur (wio_inst s1 ! 0) = 1"
    using t [THEN conjunct1] by blast
  have "\<exists>s'. main_loop_iters 0 (samples (ticks 4294966296 4000 pin_low)) ?start = Inr s'
           \<and> tx_buffer_cur (wio_inst s' ! 0) = of_nat (Suc 2)
           \<and> gpio_writes s' = gpio_writes example_base
                @ map (\<lambda>j. (tx_pin (wio_inst example_base ! 0), NOT (of_nat j) AND 1))
                    [0..<Suc 2]"
    by (rule timing) (simp add: tb F2 F3)
  then obtain s3 where s3: "main_loop_iters 0 (samples (ticks 4294966296 4000 pin_low)) ?start
                              = Inr s3"
    and c3: "tx_buffer_cur (wio_inst s3 ! 0) = 3"
    by auto
  have "\<exists>s'. main_loop_iters 0 (samples (ticks 4294966296 4001 pin_low)) ?start = Inr s'
           \<and> tx_buffer_cur (wio_inst s' ! 0) = of_nat (Suc 3)
           \<and> gpio_writes s' = gpio_writes example_base
                @ map (\<lambda>j. (tx_pin (wio_inst example_base ! 0), NOT (of_nat j) AND 1))
                    [0..<Suc 3]"
    by (rule timing) (simp add: tb F3)
  then obtain s4 where s4: "main_loop_iters 0 (samples (ticks 4294966296 4001 pin_low)) ?start
                              = Inr s4"
    and c4: "tx_buffer_cur (wio_inst s4 ! 0) = 4"
    and g4: "gpio_writes s4 = map (\<lambda>j. (0 :: gpio, NOT (of_nat j) AND (1 :: u32))) [0..<4]"
    unfolding tb by auto
  show ?thesis
    unfolding s1 s3 s4
    using h rxc ap N m c1 c3 c4 g4 F2 F3
    by (simp add: tb wio_tx_cursor_def example_levels)
qed

section \<open>A deadline missed across the wrap\<close>

lemma stall_iter:
  assumes h: "self_id < length (wio_inst s)" and rx: "rx_buffer_len (wio_inst s ! self_id) \<noteq> 0"
    and c: "tx_buffer_cur (wio_inst s ! self_id) \<noteq> 0"
    and w: "tx_await_wrap (wio_inst s ! self_id) = 0"
    and lt: "now < tx_target_time (wio_inst s ! self_id)"
  shows "\<exists>s'. main_loop_iter self_id now current_rx s = Inr s' \<and> tx_quiet self_id s s'
     \<and> tx_await_wrap (wio_inst s' ! self_id) = 0"
proof -
  have "\<not> tx_target_time (wio_inst s ! self_id) \<le> now"
    using lt by simp
  then have "handle_transmissions (memory s) now (wio_inst s ! self_id)
               = (wio_inst s ! self_id, [])"
    using c w by (simp add: handle_transmissions_def Let_def)
  then show ?thesis
    using main_loop_iter_tx [OF h rx, of now current_rx] w by (auto simp: tx_quiet_def)
qed

lemma stall_run:
  assumes "self_id < length (wio_inst s)" and "rx_buffer_len (wio_inst s ! self_id) \<noteq> 0"
    and "tx_buffer_cur (wio_inst s ! self_id) \<noteq> 0"
    and "tx_await_wrap (wio_inst s ! self_id) = 0"
    and "\<forall>p \<in> set ps. clock (fst p) < tx_target_time (wio_inst s ! self_id)"
  shows "\<exists>s'. main_loop_iters self_id (samples ps) s = Inr s' \<and> tx_quiet self_id s s'"
  using assms
proof (induction ps arbitrary: s)
  case Nil
  then show ?case by (simp add: samples_def tx_quiet_refl)
next
  case (Cons p ps)
  obtain s1 where s1: "main_loop_iter self_id (clock (fst p)) (snd p) s = Inr s1"
    and q1: "tx_quiet self_id s s1"
    and w1: "tx_await_wrap (wio_inst s1 ! self_id) = 0"
    using stall_iter [OF Cons.prems(1,2,3,4), of "clock (fst p)" "snd p"] Cons.prems(5)
    by auto
  have pre: "self_id < length (wio_inst s1)" "rx_buffer_len (wio_inst s1 ! self_id) \<noteq> 0"
    "tx_buffer_cur (wio_inst s1 ! self_id) \<noteq> 0" "tx_await_wrap (wio_inst s1 ! self_id) = 0"
    "\<forall>p \<in> set ps. clock (fst p) < tx_target_time (wio_inst s1 ! self_id)"
    using q1 w1 Cons.prems by (simp_all add: tx_quiet_def)
  obtain s' where "main_loop_iters self_id (samples ps) s1 = Inr s'" "tx_quiet self_id s1 s'"
    using Cons.IH [OF pre] by blast
  then show ?case
    using s1 q1 by (auto simp: samples_def intro: tx_quiet_trans)
qed

lemma clock_coarse: "clock (4294966352 + 64 * k) < 4294967288"
proof -
  let ?x = "4294966352 + 64 * k"
  have a: "?x mod 4294967296 = 64 * (?x div 64 mod 67108864) + ?x mod 64"
    using mod_mult2_eq [of ?x 64 67108864] by simp
  have b: "?x mod 64 = 16"
    by simp
  have c: "?x div 64 mod 67108864 < 67108864"
    by simp
  have "?x mod 4294967296 < 4294967288"
    unfolding a b using c by linarith
  moreover have "unat (clock ?x) = ?x mod 2 ^ LENGTH(32)"
    unfolding clock_def by (rule unat_of_nat)
  moreover have "(2 :: nat) ^ LENGTH(32) = 4294967296"
    by simp
  ultimately have "unat (clock ?x) < 4294967288"
    by (simp only:)
  then show ?thesis
    by (simp add: word_less_nat_alt)
qed

lemma coarse_samples_clock: "\<forall>p \<in> set (coarse_samples n). clock (fst p) < 4294967288"
  by (auto simp: coarse_samples_def clock_coarse)

lemma example_start_facts:
  "length (wio_inst (wio_tx_start 0 4 example_base)) = 8"
  "rx_buffer_len (wio_inst (wio_tx_start 0 4 example_base) ! 0) = 16"
  "tx_buffer_cur (wio_inst (wio_tx_start 0 4 example_base) ! 0) = 0"
  "tx_buffer_len (wio_inst (wio_tx_start 0 4 example_base) ! 0) = 4"
  "tx_buffer (wio_inst (wio_tx_start 0 4 example_base) ! 0) = 100"
  "memory (wio_tx_start 0 4 example_base) = example_memory"
  unfolding example_base_def by (simp_all add: wio_tx_start_def new_base_facts)

text \<open>
  C2. A transmission of valid entries does not complete. The buffer of \<open>example_base\<close>
  holds 1000, 2000, 1000, 2000 and the transmission of length 4 is started when the
  counter reads \<open>2 ^ 32 - 1008\<close>. The first iteration fires the first transition at
  once and sets the deadline of the second to \<open>2 ^ 32 - 8\<close>, with no wrap guard since
  the addition does not overflow. The loop reads the timer every 64 ticks: it reads
  \<open>2 ^ 32 - 48\<close>, below the deadline, and next, after the counter has wrapped, 16,
  again below the deadline, and so in every later period, since it never reads one of
  the eight values from the deadline to \<open>2 ^ 32 - 1\<close>. However many iterations run, the
  cursor stays 1 and the deadline stays \<open>2 ^ 32 - 8\<close>: the second transition, due 1000
  ticks after the first, never fires, and the cursor never reaches 4.
\<close>

theorem transmit_stalls_across_wrap:
  "map_sum id (wio_tx_cursor 0)
     (main_loop_iters 0 (samples ((4294966288, 0) # coarse_samples n))
        (wio_tx_start 0 4 example_base)) = Inr 1
   \<and> map_sum id (wio_tx_target 0)
     (main_loop_iters 0 (samples ((4294966288, 0) # coarse_samples n))
        (wio_tx_start 0 4 example_base)) = Inr 4294967288"
proof -
  let ?s0 = "wio_tx_start 0 4 example_base"
  have h: "0 < length (wio_inst ?s0)" and rx: "rx_buffer_len (wio_inst ?s0 ! 0) \<noteq> 0"
    by (simp_all add: example_start_facts)
  have ff: "tx_buffer_cur (fst (handle_transmissions (memory ?s0) (clock 4294966288)
                (wio_inst ?s0 ! 0))) = 1"
    "tx_target_time (fst (handle_transmissions (memory ?s0) (clock 4294966288)
                (wio_inst ?s0 ! 0))) = 4294967288"
    "tx_await_wrap (fst (handle_transmissions (memory ?s0) (clock 4294966288)
                (wio_inst ?s0 ! 0))) = 0"
    using first_fires [of "wio_inst ?s0 ! 0" "memory ?s0" "clock 4294966288"]
    by (simp_all add: example_start_facts example_memory_def clock_def)
  obtain s1 where s1: "main_loop_iter 0 (clock 4294966288) 0 ?s0 = Inr s1"
    and f: "length (wio_inst s1) = 8" "rx_buffer_len (wio_inst s1 ! 0) = 16"
      "tx_buffer_cur (wio_inst s1 ! 0) = 1" "tx_target_time (wio_inst s1 ! 0) = 4294967288"
      "tx_await_wrap (wio_inst s1 ! 0) = 0"
    using main_loop_iter_tx [OF h rx, of "clock 4294966288" 0] ff
    by (auto simp: example_start_facts)
  have "\<forall>p \<in> set (coarse_samples n). clock (fst p) < tx_target_time (wio_inst s1 ! 0)"
    unfolding f by (rule coarse_samples_clock)
  moreover have "0 < length (wio_inst s1)" "rx_buffer_len (wio_inst s1 ! 0) \<noteq> 0"
    "tx_buffer_cur (wio_inst s1 ! 0) \<noteq> 0" "tx_await_wrap (wio_inst s1 ! 0) = 0"
    unfolding f by simp_all
  ultimately obtain s' where s': "main_loop_iters 0 (samples (coarse_samples n)) s1 = Inr s'"
    and q: "tx_quiet 0 s1 s'"
    using stall_run [of 0 s1 "coarse_samples n"] by blast
  have u: "samples ((4294966288, 0) # coarse_samples n)
             = (clock 4294966288, 0) # samples (coarse_samples n)"
    unfolding samples_def by simp
  have run: "main_loop_iters 0 (samples ((4294966288, 0) # coarse_samples n)) ?s0 = Inr s'"
    unfolding u main_loop_iters.simps s1 using s' by simp
  have "wio_tx_cursor 0 s' = 1" "wio_tx_target 0 s' = 4294967288"
    using q f(3,4) by (simp_all add: wio_tx_cursor_def wio_tx_target_def tx_quiet_def)
  then show ?thesis
    unfolding run by simp
qed

end
